theory Spec2Isabelle
  imports Complex_Main "HOL-Library.Log_Nat"
begin

section \<open>JavaScript numbers and raw values\<close>

text \<open>
  The reducer computes with JavaScript Numbers, which are IEEE-754 binary64 values, and
  receives the fields of a settings payload as raw values (strings of a form, in the
  running application).

  A Number is modelled by its kind and, when finite, by its rational value. Every
  result of \<^verbatim>\<open>+\<close>, \<^verbatim>\<open>-\<close>, \<^verbatim>\<open>*\<close> and of the conversion of a string is rounded to
  binary64 by \<open>round64\<close>: to the nearest value with 53 significant bits, ties to the
  even significand, with the subnormal spacing \<open>2\<^sup>-\<^sup>1\<^sup>0\<^sup>7\<^sup>4\<close> at the bottom of the range
  and Infinity from \<open>2\<^sup>1\<^sup>0\<^sup>2\<^sup>4\<close> on. The two zeros are not told apart (the reducer never
  divides and never prints a number).
\<close>

datatype jsnum = NaN | NegInf | Fin rat | PosInf

datatype jsval = JUndefined | JNull | JBool bool | JNum jsnum | JStr string | JSymbol

text \<open>The exponent of a positive value: the \<open>e\<close> with \<open>2\<^sup>e \<le> x < 2\<^sup>e\<^sup>+\<^sup>1\<close>.\<close>

definition ilog2 :: "rat \<Rightarrow> int" where
  "ilog2 x = (if 1 \<le> x then bitlen \<lfloor>x\<rfloor> - 1 else - bitlen (\<lceil>1 / x\<rceil> - 1))"

definition round_half_even :: "rat \<Rightarrow> int" where
  "round_half_even y =
     (let f = \<lfloor>y\<rfloor>; r = y - of_int f in
      if r < 1 / 2 then f
      else if 1 / 2 < r then f + 1
      else if even f then f else f + 1)"

text \<open>
  Rounding a positive value: the spacing of the doubles around \<open>x\<close> is
  \<open>2\<^sup>e\<^sup>-\<^sup>5\<^sup>2\<close> for the exponent \<open>e\<close> of \<open>x\<close>, and never less than \<open>2\<^sup>-\<^sup>1\<^sup>0\<^sup>7\<^sup>4\<close>.
\<close>

definition round64_pos :: "rat \<Rightarrow> jsnum" where
  "round64_pos x =
     (let e = max (ilog2 x) (- 1022);
          q = 2 powi (e - 52);
          r = of_int (round_half_even (x / q)) * q
      in if 2 ^ 1024 \<le> r then PosInf else Fin r)"

definition js_neg :: "jsnum \<Rightarrow> jsnum" where
  "js_neg a = (case a of NaN \<Rightarrow> NaN | NegInf \<Rightarrow> PosInf | Fin x \<Rightarrow> Fin (- x) | PosInf \<Rightarrow> NegInf)"

definition round64 :: "rat \<Rightarrow> jsnum" where
  "round64 x =
     (if x = 0 then Fin 0
      else if 0 < x then round64_pos x
      else js_neg (round64_pos (- x)))"

fun js_sign :: "jsnum \<Rightarrow> int" where
  "js_sign NaN = 0"
| "js_sign NegInf = - 1"
| "js_sign (Fin x) = (if x < 0 then - 1 else if x = 0 then 0 else 1)"
| "js_sign PosInf = 1"

text \<open>The operator \<^verbatim>\<open>a + b\<close> on Numbers.\<close>

fun js_add :: "jsnum \<Rightarrow> jsnum \<Rightarrow> jsnum" where
  "js_add NaN b = NaN"
| "js_add a NaN = NaN"
| "js_add (Fin x) (Fin y) = round64 (x + y)"
| "js_add PosInf NegInf = NaN"
| "js_add NegInf PosInf = NaN"
| "js_add PosInf b = PosInf"
| "js_add NegInf b = NegInf"
| "js_add a PosInf = PosInf"
| "js_add a NegInf = NegInf"

text \<open>The operator \<^verbatim>\<open>a - b\<close>.\<close>

fun js_sub :: "jsnum \<Rightarrow> jsnum \<Rightarrow> jsnum" where
  "js_sub NaN b = NaN"
| "js_sub a NaN = NaN"
| "js_sub (Fin x) (Fin y) = round64 (x - y)"
| "js_sub PosInf PosInf = NaN"
| "js_sub NegInf NegInf = NaN"
| "js_sub PosInf b = PosInf"
| "js_sub NegInf b = NegInf"
| "js_sub a PosInf = NegInf"
| "js_sub a NegInf = PosInf"

text \<open>The operator \<^verbatim>\<open>a * b\<close>: Infinity times zero is NaN.\<close>

fun js_mul :: "jsnum \<Rightarrow> jsnum \<Rightarrow> jsnum" where
  "js_mul NaN b = NaN"
| "js_mul a NaN = NaN"
| "js_mul (Fin x) (Fin y) = round64 (x * y)"
| "js_mul a b =
     (if js_sign a * js_sign b = 0 then NaN
      else if 0 < js_sign a * js_sign b then PosInf else NegInf)"

definition trunc :: "rat \<Rightarrow> int" where
  "trunc q = (if 0 \<le> q then \<lfloor>q\<rfloor> else \<lceil>q\<rceil>)"

text \<open>
  The operator \<^verbatim>\<open>a % b\<close>: the remainder of the truncated division, with the sign
  of the dividend; NaN when the dividend is infinite or the divisor is zero. The
  remainder of two doubles is a double, so nothing is rounded here.
\<close>

fun js_rem :: "jsnum \<Rightarrow> jsnum \<Rightarrow> jsnum" where
  "js_rem (Fin x) (Fin y) = (if y = 0 then NaN else Fin (x - y * of_int (trunc (x / y))))"
| "js_rem (Fin x) PosInf = Fin x"
| "js_rem (Fin x) NegInf = Fin x"
| "js_rem a b = NaN"

text \<open>The comparison \<^verbatim>\<open>a > b\<close>: false as soon as one side is NaN.\<close>

fun js_gt :: "jsnum \<Rightarrow> jsnum \<Rightarrow> bool" where
  "js_gt NaN b = False"
| "js_gt a NaN = False"
| "js_gt (Fin x) (Fin y) = (y < x)"
| "js_gt a PosInf = False"
| "js_gt PosInf b = True"
| "js_gt NegInf b = False"
| "js_gt a NegInf = True"

text \<open>The comparison \<^verbatim>\<open>a === b\<close> on Numbers: NaN equals nothing.\<close>

fun js_strict_eq :: "jsnum \<Rightarrow> jsnum \<Rightarrow> bool" where
  "js_strict_eq NaN b = False"
| "js_strict_eq a NaN = False"
| "js_strict_eq a b = (a = b)"

text \<open>\<^verbatim>\<open>Math.max(a, b)\<close>: NaN as soon as one argument is NaN.\<close>

fun js_max :: "jsnum \<Rightarrow> jsnum \<Rightarrow> jsnum" where
  "js_max NaN b = NaN"
| "js_max a NaN = NaN"
| "js_max a b = (if js_gt b a then b else a)"

text \<open>A Number is falsy when it is zero or NaN; \<^verbatim>\<open>a || b\<close> is \<open>a\<close> unless \<open>a\<close> is falsy.\<close>

fun truthy :: "jsnum \<Rightarrow> bool" where
  "truthy NaN = False"
| "truthy (Fin x) = (x \<noteq> 0)"
| "truthy a = True"

definition js_or :: "jsnum \<Rightarrow> jsnum \<Rightarrow> jsnum" where
  "js_or a b = (if truthy a then a else b)"

subsection \<open>Converting a string to a Number\<close>

text \<open>
  \<^verbatim>\<open>Number(v)\<close> on a string follows the grammar of numeric string literals: optional
  white space around an optionally signed decimal literal (digits, a fraction, an
  exponent), the word Infinity, or an unsigned binary, octal or hexadecimal integer.
  The empty string converts to zero, everything outside the grammar to NaN, and the
  value of a literal is rounded to binary64. Strings are lists of 8-bit characters, so
  the white space is the part of it below U+0100.
\<close>

definition is_ws :: "char \<Rightarrow> bool" where
  "is_ws c = ((of_char c :: nat) \<in> set [9, 10, 11, 12, 13, 32, 160])"

definition trim_ws :: "string \<Rightarrow> string" where
  "trim_ws s = rev (dropWhile is_ws (rev (dropWhile is_ws s)))"

definition digit_of :: "char \<Rightarrow> nat option" where
  "digit_of c =
     (let n = (of_char c :: nat) in
      if 48 \<le> n \<and> n \<le> 57 then Some (n - 48)
      else if 97 \<le> n \<and> n \<le> 102 then Some (n - 87)
      else if 65 \<le> n \<and> n \<le> 70 then Some (n - 55)
      else None)"

definition is_digit :: "char \<Rightarrow> bool" where
  "is_digit c = (48 \<le> (of_char c :: nat) \<and> (of_char c :: nat) \<le> 57)"

fun digits_val :: "nat \<Rightarrow> nat \<Rightarrow> string \<Rightarrow> nat option" where
  "digits_val b acc [] = Some acc"
| "digits_val b acc (c # cs) =
     (case digit_of c of
        None \<Rightarrow> None
      | Some d \<Rightarrow> if d < b then digits_val b (acc * b + d) cs else None)"

definition parse_digits :: "nat \<Rightarrow> string \<Rightarrow> nat option" where
  "parse_digits b s = (if s = [] then None else digits_val b 0 s)"

definition signed_integer :: "string \<Rightarrow> int option" where
  "signed_integer s =
     (case s of
        [] \<Rightarrow> None
      | c # t \<Rightarrow>
          if c = CHR ''+'' then map_option int (parse_digits 10 t)
          else if c = CHR ''-'' then map_option (\<lambda>n. - int n) (parse_digits 10 t)
          else map_option int (parse_digits 10 s))"

definition exponent_part :: "string \<Rightarrow> int option" where
  "exponent_part s =
     (case s of
        [] \<Rightarrow> Some 0
      | c # t \<Rightarrow> if c = CHR ''e'' \<or> c = CHR ''E'' then signed_integer t else None)"

definition pow10 :: "int \<Rightarrow> rat" where
  "pow10 e = (if 0 \<le> e then 10 ^ nat e else 1 / 10 ^ nat (- e))"

definition unsigned_decimal :: "string \<Rightarrow> jsnum" where
  "unsigned_decimal s =
     (if s = ''Infinity'' then PosInf
      else
        let ip = takeWhile is_digit s;
            r1 = dropWhile is_digit s;
            fp = (case r1 of [] \<Rightarrow> []
                  | c # t \<Rightarrow> if c = CHR ''.'' then takeWhile is_digit t else []);
            r2 = (case r1 of [] \<Rightarrow> []
                  | c # t \<Rightarrow> if c = CHR ''.'' then dropWhile is_digit t else r1)
        in if ip = [] \<and> fp = [] then NaN
           else
             (case (digits_val 10 0 ip, digits_val 10 0 fp, exponent_part r2) of
                (Some i, Some f, Some e) \<Rightarrow>
                  round64 ((of_nat i + of_nat f / 10 ^ length fp) * pow10 e)
              | _ \<Rightarrow> NaN))"

definition non_decimal :: "string \<Rightarrow> jsnum option" where
  "non_decimal s =
     (case s of
        c0 # c1 # t \<Rightarrow>
          if c0 \<noteq> CHR ''0'' then None
          else
            let b = (if c1 = CHR ''x'' \<or> c1 = CHR ''X'' then 16
                     else if c1 = CHR ''o'' \<or> c1 = CHR ''O'' then 8
                     else if c1 = CHR ''b'' \<or> c1 = CHR ''B'' then 2 else (0::nat))
            in if b = 0 then None
               else Some (case parse_digits b t of
                            None \<Rightarrow> NaN
                          | Some n \<Rightarrow> round64 (of_nat n))
      | _ \<Rightarrow> None)"

definition StringToNumber :: "string \<Rightarrow> jsnum" where
  "StringToNumber str =
     (let s = trim_ws str in
      if s = [] then Fin 0
      else
        (case non_decimal s of
           Some n \<Rightarrow> n
         | None \<Rightarrow>
             if hd s = CHR ''+'' then unsigned_decimal (tl s)
             else if hd s = CHR ''-'' then js_neg (unsigned_decimal (tl s))
             else unsigned_decimal s))"

subsection \<open>Errors\<close>

text \<open>
  The reducers contain no \<^verbatim>\<open>throw\<close>. What can raise is the language itself, with a
  TypeError: reading a property of an absent payload (\<^verbatim>\<open>action.payload.workMin\<close>
  with \<^verbatim>\<open>payload\<close> undefined or null) and converting a Symbol to a Number.
\<close>

datatype error = TypeError

definition and_then :: "error + 'a \<Rightarrow> ('a \<Rightarrow> error + 'b) \<Rightarrow> error + 'b" where
  "and_then r f = (case r of Inl e \<Rightarrow> Inl e | Inr x \<Rightarrow> f x)"

text \<open>
  \<^verbatim>\<open>Number(v)\<close> on the primitive values a payload field can hold; a missing field
  reads as undefined. A value of another type converts as one of these: a BigInt as its
  Number, an object as its primitive value.
\<close>

fun Number :: "jsval \<Rightarrow> error + jsnum" where
  "Number JUndefined = Inr NaN"
| "Number JNull = Inr (Fin 0)"
| "Number (JBool b) = Inr (if b then Fin 1 else Fin 0)"
| "Number (JNum n) = Inr n"
| "Number (JStr s) = Inr (StringToNumber s)"
| "Number JSymbol = Inl TypeError"

section \<open>The timer state\<close>

datatype mode = Work | ShortBreak | LongBreak

datatype status = Idle | Running | Paused

text \<open>
  The four settings, as Numbers in the state's \<^verbatim>\<open>config\<close> and as raw values in the
  payload of \<^verbatim>\<open>APPLY_CONFIG\<close>.
\<close>

record 'v settings =
  workMin :: 'v
  shortMin :: 'v
  longMin :: 'v
  longEvery :: 'v

text \<open>
  The state of the exported reducer; the application's state extends it by
  \<^verbatim>\<open>soundEnabled\<close>. Both reducers copy the fields they do not set
  (\<^verbatim>\<open>{ ...state, ... }\<close>).
\<close>

record timer_state =
  mode :: mode
  status :: status
  config :: "jsnum settings"
  secondsLeft :: jsnum
  workSessionsCompleted :: jsnum
  announce :: string

record app_state = timer_state +
  soundEnabled :: bool

text \<open>
  An action is an object with a \<^verbatim>\<open>type\<close> and, for two of them, a payload. The
  payload of \<^verbatim>\<open>APPLY_CONFIG\<close> is \<open>None\<close> when the action has none (undefined or
  null) and otherwise the object with its four fields. \<open>OTHER\<close> stands for every type
  that no \<^verbatim>\<open>case\<close> names.
\<close>

datatype action =
    START
  | PAUSE
  | RESUME
  | RESET_SESSION
  | SET_MODE mode
  | TOGGLE_SOUND
  | APPLY_CONFIG "jsval settings option"
  | TICK
  | OTHER

section \<open>Helpers of the reducers\<close>

fun modeLabel :: "mode \<Rightarrow> string" where
  "modeLabel Work = ''Work''"
| "modeLabel ShortBreak = ''Short Break''"
| "modeLabel LongBreak = ''Long Break''"

definition secondsForMode :: "mode \<Rightarrow> jsnum settings \<Rightarrow> jsnum" where
  "secondsForMode m c =
     (if m = Work then js_mul (workMin c) (Fin 60)
      else if m = ShortBreak then js_mul (shortMin c) (Fin 60)
      else js_mul (longMin c) (Fin 60))"

definition nextMode :: "mode \<Rightarrow> jsnum \<Rightarrow> jsnum settings \<Rightarrow> mode" where
  "nextMode currentMode nextWorkCount c =
     (if currentMode = Work
      then (if js_strict_eq (js_rem nextWorkCount (longEvery c)) (Fin 0)
            then LongBreak else ShortBreak)
      else Work)"

definition clampMin :: "jsval \<Rightarrow> error + jsnum" where
  "clampMin v = and_then (Number v) (\<lambda>n. Inr (js_max (Fin 1) (js_or n (Fin 1))))"

definition initialState :: timer_state where
  "initialState =
     \<lparr>mode = Work, status = Idle,
      config = \<lparr>workMin = Fin 25, shortMin = Fin 5, longMin = Fin 15, longEvery = Fin 4\<rparr>,
      secondsLeft = Fin (25 * 60), workSessionsCompleted = Fin 0, announce = ''''\<rparr>"

definition app_initialState :: app_state where
  "app_initialState =
     \<lparr>mode = Work, status = Idle,
      config = \<lparr>workMin = Fin 25, shortMin = Fin 5, longMin = Fin 15, longEvery = Fin 4\<rparr>,
      secondsLeft = Fin (25 * 60), workSessionsCompleted = Fin 0, announce = '''',
      soundEnabled = True\<rparr>"

section \<open>The exported reducer\<close>

fun reducer :: "'a timer_state_scheme \<Rightarrow> action \<Rightarrow> error + 'a timer_state_scheme" where
  "reducer state START =
     (if status state = Running then Inr state
      else Inr (state\<lparr>status := Running, announce := ''''\<rparr>))"
| "reducer state PAUSE =
     (if status state \<noteq> Running then Inr state
      else Inr (state\<lparr>status := Paused, announce := ''''\<rparr>))"
| "reducer state RESUME =
     (if status state \<noteq> Paused then Inr state
      else Inr (state\<lparr>status := Running, announce := ''''\<rparr>))"
| "reducer state RESET_SESSION =
     Inr (state\<lparr>status := Idle,
                secondsLeft := secondsForMode (mode state) (config state),
                announce := ''Session reset''\<rparr>)"
| "reducer state TICK =
     (if status state \<noteq> Running then Inr state
      else
        let next = js_sub (secondsLeft state) (Fin 1) in
        if js_gt next (Fin 0) then Inr (state\<lparr>secondsLeft := next\<rparr>)
        else
          let nextWorkCount =
                (if mode state = Work then js_add (workSessionsCompleted state) (Fin 1)
                 else workSessionsCompleted state);
              mode2 = nextMode (mode state) nextWorkCount (config state)
          in Inr (state\<lparr>mode := mode2,
                        workSessionsCompleted := nextWorkCount,
                        secondsLeft := secondsForMode mode2 (config state),
                        announce := ''Session complete. Next: '' @ modeLabel mode2\<rparr>))"
| "reducer state (APPLY_CONFIG None) = Inl TypeError"
| "reducer state (APPLY_CONFIG (Some payload)) =
     and_then (clampMin (workMin payload)) (\<lambda>w.
     and_then (clampMin (shortMin payload)) (\<lambda>sh.
     and_then (clampMin (longMin payload)) (\<lambda>lo.
     and_then (Number (longEvery payload)) (\<lambda>n.
       let cfg = \<lparr>workMin = w, shortMin = sh, longMin = lo,
                  longEvery = js_max (Fin 1) (js_or n (Fin 4))\<rparr>
       in Inr (state\<lparr>config := cfg,
                     secondsLeft := secondsForMode (mode state) cfg,
                     status := Idle,
                     announce := ''Settings applied''\<rparr>)))))"
| "reducer state other = Inr state"

section \<open>The application's reducer\<close>

fun app_reducer :: "app_state \<Rightarrow> action \<Rightarrow> error + app_state" where
  "app_reducer state START =
     (if status state = Running then Inr state
      else Inr (state\<lparr>status := Running, announce := ''''\<rparr>))"
| "app_reducer state PAUSE =
     (if status state \<noteq> Running then Inr state
      else Inr (state\<lparr>status := Paused, announce := ''''\<rparr>))"
| "app_reducer state RESUME =
     (if status state \<noteq> Paused then Inr state
      else Inr (state\<lparr>status := Running, announce := ''''\<rparr>))"
| "app_reducer state RESET_SESSION =
     Inr (state\<lparr>status := Idle,
                secondsLeft := secondsForMode (mode state) (config state),
                announce := ''Session reset''\<rparr>)"
| "app_reducer state (SET_MODE m) =
     Inr (state\<lparr>mode := m,
                status := Idle,
                secondsLeft := secondsForMode m (config state),
                announce := ''Session: '' @ modeLabel m\<rparr>)"
| "app_reducer state TOGGLE_SOUND =
     Inr (state\<lparr>soundEnabled := \<not> soundEnabled state, announce := ''''\<rparr>)"
| "app_reducer state (APPLY_CONFIG None) = Inl TypeError"
| "app_reducer state (APPLY_CONFIG (Some payload)) =
     and_then (clampMin (workMin payload)) (\<lambda>w.
     and_then (clampMin (shortMin payload)) (\<lambda>sh.
     and_then (clampMin (longMin payload)) (\<lambda>lo.
     and_then (Number (longEvery payload)) (\<lambda>n.
       let cfg = \<lparr>workMin = w, shortMin = sh, longMin = lo,
                  longEvery = js_max (Fin 1) (js_or n (Fin 4))\<rparr>
       in Inr (state\<lparr>config := cfg,
                     status := Idle,
                     secondsLeft := secondsForMode (mode state) cfg,
                     announce := ''Settings applied''\<rparr>)))))"
| "app_reducer state TICK =
     (if status state \<noteq> Running then Inr state
      else
        let next = js_sub (secondsLeft state) (Fin 1) in
        if js_gt next (Fin 0) then Inr (state\<lparr>secondsLeft := next\<rparr>)
        else
          let workCount =
                (if mode state = Work then js_add (workSessionsCompleted state) (Fin 1)
                 else workSessionsCompleted state);
              nextMode' =
                (if mode state = Work
                 then (if js_strict_eq (js_rem workCount (longEvery (config state))) (Fin 0)
                       then LongBreak else ShortBreak)
                 else Work)
          in Inr (state\<lparr>mode := nextMode',
                        workSessionsCompleted := workCount,
                        secondsLeft := secondsForMode nextMode' (config state),
                        announce := ''Session complete. Next: '' @ modeLabel nextMode'\<rparr>))"
| "app_reducer state OTHER = Inr state"

section \<open>Sequences of actions\<close>

text \<open>
  Dispatching a list of actions in order, from a state: each action is reduced in the
  state the one before returned, and an action that raises ends the run with its error.
\<close>

fun run :: "('s \<Rightarrow> action \<Rightarrow> error + 's) \<Rightarrow> 's \<Rightarrow> action list \<Rightarrow> error + 's" where
  "run step s [] = Inr s"
| "run step s (a # as) =
     (case step s a of Inl e \<Rightarrow> Inl e | Inr s' \<Rightarrow> run step s' as)"

section \<open>Predicates used to state the properties\<close>

text \<open>The comparison \<^verbatim>\<open>a >= b\<close>.\<close>

fun js_ge :: "jsnum \<Rightarrow> jsnum \<Rightarrow> bool" where
  "js_ge NaN b = False"
| "js_ge a NaN = False"
| "js_ge (Fin x) (Fin y) = (y \<le> x)"
| "js_ge PosInf b = True"
| "js_ge a NegInf = True"
| "js_ge a b = False"

text \<open>\<^verbatim>\<open>Number.isInteger(a)\<close>: a finite Number without a fractional part.\<close>

fun js_is_integer :: "jsnum \<Rightarrow> bool" where
  "js_is_integer (Fin x) = (of_int \<lfloor>x\<rfloor> = x)"
| "js_is_integer a = False"

definition config_ok :: "jsnum settings \<Rightarrow> bool" where
  "config_ok c =
     (js_ge (workMin c) (Fin 1) \<and> js_ge (shortMin c) (Fin 1)
      \<and> js_ge (longMin c) (Fin 1) \<and> js_ge (longEvery c) (Fin 1))"

definition timer_inv :: "'a timer_state_scheme \<Rightarrow> bool" where
  "timer_inv s = (config_ok (config s) \<and> js_gt (secondsLeft s) (Fin 0))"



lemmas string_to_number_defs =
  StringToNumber_def trim_ws_def is_ws_def non_decimal_def unsigned_decimal_def
  is_digit_def digit_of_def parse_digits_def signed_integer_def exponent_part_def
  pow10_def js_neg_def

section \<open>Facts about the rounding\<close>

lemma ilog2_bounds:
  assumes "0 < x"
  shows "2 powi (ilog2 x) \<le> x \<and> x < 2 powi (ilog2 x + 1)"
proof (cases "1 \<le> x")
  case True
  define n where "n = \<lfloor>x\<rfloor>"
  have n: "1 \<le> n" "of_int n \<le> x" "x < of_int n + 1"
    using True by (simp_all add: n_def) linarith
  then have b: "2 ^ nat (bitlen n - 1) \<le> n" "n < 2 ^ nat (bitlen n)"
    using bitlen_bounds [of n] by simp_all
  have pos: "1 \<le> bitlen n"
  proof (rule ccontr)
    assume "\<not> 1 \<le> bitlen n"
    then have "nat (bitlen n) = 0" by simp
    with b(2) n(1) show False by simp
  qed
  have e: "ilog2 x = bitlen n - 1"
    using True by (simp add: ilog2_def n_def)
  have lo: "(2::rat) powi (bitlen n - 1) = of_int (2 ^ nat (bitlen n - 1))"
    using pos by (simp add: power_int_def)
  have hi: "(2::rat) powi (bitlen n - 1 + 1) = of_int (2 ^ nat (bitlen n))"
    using pos by (simp add: power_int_def)
  have "of_int (2 ^ nat (bitlen n - 1)) \<le> (of_int n :: rat)"
    using b(1) by (simp only: of_int_le_iff)
  then have 1: "2 powi (ilog2 x) \<le> x"
    using n(2) by (simp only: e lo)
  have "n + 1 \<le> 2 ^ nat (bitlen n)"
    using b(2) by simp
  then have "(of_int (n + 1) :: rat) \<le> of_int (2 ^ nat (bitlen n))"
    by (simp only: of_int_le_iff)
  then have 2: "x < 2 powi (ilog2 x + 1)"
    using n(3) by (simp only: e hi)
  from 1 2 show ?thesis ..
next
  case False
  define y where "y = 1 / x"
  define m where "m = \<lceil>y\<rceil>"
  define k where "k = bitlen (m - 1)"
  have y: "1 < y" "x = 1 / y"
    using assms False by (simp_all add: y_def)
  have m: "y \<le> of_int m" "of_int m - 1 < y"
    by (simp_all add: m_def) linarith
  have "1 < (of_int m :: rat)"
    using y(1) m(1) by simp
  then have m2: "2 \<le> m"
    by simp
  then have b: "2 ^ nat (k - 1) \<le> m - 1" "m - 1 < 2 ^ nat k"
    using bitlen_bounds [of "m - 1"] by (simp_all add: k_def)
  have pos: "1 \<le> k"
  proof (rule ccontr)
    assume "\<not> 1 \<le> k"
    then have "nat k = 0" by simp
    with b(2) m2 show False by simp
  qed
  have e: "ilog2 x = - k"
    using False by (simp add: ilog2_def k_def m_def y_def)
  have lo: "(2::rat) powi (- k) = 1 / of_int (2 ^ nat k)"
    using pos by (simp add: power_int_def field_simps)
  have hi: "(2::rat) powi (- k + 1) = 1 / of_int (2 ^ nat (k - 1))"
    using pos by (simp add: power_int_def field_simps)
  have "m \<le> 2 ^ nat k"
    using b(2) by simp
  then have "(of_int m :: rat) \<le> of_int (2 ^ nat k)"
    by (simp only: of_int_le_iff)
  with m(1) have "y \<le> of_int (2 ^ nat k)"
    by (rule order_trans)
  then have "1 / of_int (2 ^ nat k) \<le> 1 / y"
    using y(1) by (simp add: field_simps)
  also have "1 / y = x"
    using y(2) by simp
  finally have 1: "2 powi (ilog2 x) \<le> x"
    by (simp only: e lo)
  have "(of_int (2 ^ nat (k - 1)) :: rat) \<le> of_int (m - 1)"
    using b(1) by (simp only: of_int_le_iff)
  moreover have "(of_int (m - 1) :: rat) = of_int m - 1"
    by simp
  ultimately have "of_int (2 ^ nat (k - 1)) < y"
    using m(2) by linarith
  then have "1 / y < 1 / of_int (2 ^ nat (k - 1))"
    using y(1) by (simp add: field_simps)
  moreover have "1 / y = x"
    using y(2) by simp
  ultimately have 2: "x < 2 powi (ilog2 x + 1)"
    by (simp only: e hi)
  from 1 2 show ?thesis ..
qed

lemma pow2_less_D: "(2::rat) powi a < 2 powi b \<Longrightarrow> a < b"
proof (rule ccontr)
  assume "(2::rat) powi a < 2 powi b" and "\<not> a < b"
  then have "b \<le> a" by simp
  then have "(2::rat) powi b \<le> 2 powi a"
    by (rule power_int_increasing) simp
  with \<open>(2::rat) powi a < 2 powi b\<close> show False by simp
qed

lemma ilog2_unique:
  assumes "0 < x" and "2 powi e \<le> x" and "x < 2 powi (e + 1)"
  shows "ilog2 x = e"
proof -
  from ilog2_bounds [OF assms(1)]
  have b: "2 powi (ilog2 x) \<le> x" "x < 2 powi (ilog2 x + 1)"
    by simp_all
  have "(2::rat) powi (ilog2 x) < 2 powi (e + 1)"
    using b(1) assms(3) by simp
  then have 1: "ilog2 x < e + 1"
    by (rule pow2_less_D)
  have "(2::rat) powi e < 2 powi (ilog2 x + 1)"
    using b(2) assms(2) by simp
  then have 2: "e < ilog2 x + 1"
    by (rule pow2_less_D)
  from 1 2 show ?thesis by simp
qed

lemma round_half_even_of_int: "round_half_even (of_int m) = m"
  by (simp add: round_half_even_def)

lemma round_half_even_ge_floor: "\<lfloor>y\<rfloor> \<le> round_half_even y"
  by (simp add: round_half_even_def Let_def)

lemma round64_pos_at:
  assumes "0 < x" and "2 powi e \<le> x" and "x < 2 powi (e + 1)" and "- 1022 \<le> e"
  shows "round64_pos x =
     (if (2::rat) ^ 1024 \<le> of_int (round_half_even (x / 2 powi (e - 52))) * 2 powi (e - 52)
      then PosInf
      else Fin (of_int (round_half_even (x / 2 powi (e - 52))) * 2 powi (e - 52)))"
proof -
  have "ilog2 x = e"
    using assms(1-3) by (rule ilog2_unique)
  then have "max (ilog2 x) (- 1022) = e"
    using assms(4) by simp
  then show ?thesis
    by (simp add: round64_pos_def Let_def)
qed


lemma round64_pos_int:
  assumes "1 \<le> n" and "n \<le> 2 ^ 53"
  shows "round64_pos (of_int n) = Fin (of_int n)"
proof -
  define x :: rat where "x = of_int n"
  define e where "e = ilog2 x"
  have "(of_int 1 :: rat) \<le> of_int n"
    using assms(1) by (simp only: of_int_le_iff)
  moreover have "(of_int n :: rat) \<le> of_int (2 ^ 53)"
    using assms(2) by (simp only: of_int_le_iff)
  ultimately have x: "1 \<le> x" "x \<le> 2 ^ 53" "0 < x"
    by (simp_all add: x_def)
  from ilog2_bounds [OF x(3)] have b: "2 powi e \<le> x" "x < 2 powi (e + 1)"
    by (simp_all add: e_def)
  have "(2::rat) powi 0 < 2 powi (e + 1)"
    using x(1) b(2) by simp
  then have e0: "0 \<le> e"
    using pow2_less_D [of 0 "e + 1"] by simp
  have "(2::rat) powi e < 2 powi 54"
    using b(1) x(2) by simp
  then have e53: "e \<le> 53"
    using pow2_less_D [of e 54] by simp
  have at: "round64_pos x =
     (if (2::rat) ^ 1024 \<le> of_int (round_half_even (x / 2 powi (e - 52))) * 2 powi (e - 52)
      then PosInf
      else Fin (of_int (round_half_even (x / 2 powi (e - 52))) * 2 powi (e - 52)))"
    using x(3) b e0 by (intro round64_pos_at) simp_all
  have small: "\<not> (2::rat) ^ 1024 \<le> x"
    using x(2) by simp
  have "of_int (round_half_even (x / 2 powi (e - 52))) * 2 powi (e - 52) = x"
  proof (cases "e \<le> 52")
    case True
    define d where "d = nat (52 - e)"
    have q: "(2::rat) powi (e - 52) = 1 / 2 ^ d"
      using True by (auto simp add: power_int_def d_def power_one_over)
    have "x / 2 powi (e - 52) = of_int (n * 2 ^ d)"
      by (simp add: q x_def)
    then have "round_half_even (x / 2 powi (e - 52)) = n * 2 ^ d"
      by (simp only: round_half_even_of_int)
    then show ?thesis
      by (simp add: q x_def)
  next
    case False
    with e53 have e: "e = 53" by simp
    have "(2::rat) powi 53 = 2 ^ 53"
      by simp
    with b(1) x(2) have x53: "x = 2 ^ 53"
      by (simp add: e)
    have "x / 2 powi (e - 52) = of_int (2 ^ 52)"
      by (simp add: e x53)
    then have "round_half_even (x / 2 powi (e - 52)) = 2 ^ 52"
      by (simp only: round_half_even_of_int)
    then show ?thesis
      by (simp add: e x53)
  qed
  with at small show ?thesis
    by (simp add: x_def)
qed

lemma round64_int:
  assumes "0 \<le> n" and "n \<le> 2 ^ 53"
  shows "round64 (of_int n) = Fin (of_int n)"
proof (cases "n = 0")
  case True
  then show ?thesis by (simp add: round64_def)
next
  case False
  with assms(1) have "1 \<le> n" by simp
  then have "round64_pos (of_int n) = Fin (of_int n)"
    using assms(2) by (rule round64_pos_int)
  with \<open>1 \<le> n\<close> show ?thesis
    by (simp add: round64_def)
qed

lemma round64_numeral:
  "(numeral k :: int) \<le> 2 ^ 53 \<Longrightarrow> round64 (numeral k) = Fin (numeral k)"
  "round64 1 = Fin 1"
  "round64 0 = Fin 0"
  using round64_int [of "numeral k"] round64_int [of 1] round64_int [of 0]
  by simp_all

lemma round64_pos_positive:
  assumes "1 \<le> x"
  shows "round64_pos x = PosInf \<or> (\<exists>r. round64_pos x = Fin r \<and> 0 < r)"
proof -
  define e where "e = ilog2 x"
  have x: "0 < x" using assms by simp
  from ilog2_bounds [OF x] have b: "2 powi e \<le> x" "x < 2 powi (e + 1)"
    by (simp_all add: e_def)
  have "(2::rat) powi 0 < 2 powi (e + 1)"
    using assms b(2) by simp
  then have e0: "0 \<le> e"
    using pow2_less_D [of 0 "e + 1"] by simp
  define q :: rat where "q = 2 powi (e - 52)"
  have q: "0 < q" "q \<le> x"
  proof -
    show "0 < q" by (simp add: q_def)
    have "(2::rat) powi (e - 52) \<le> 2 powi e"
      by (rule power_int_increasing) simp_all
    with b(1) show "q \<le> x" by (simp add: q_def)
  qed
  then have "1 \<le> x / q"
    by simp
  then have "1 \<le> \<lfloor>x / q\<rfloor>"
    by simp
  then have "1 \<le> round_half_even (x / q)"
    using round_half_even_ge_floor [of "x / q"] by linarith
  then have "0 < (of_int (round_half_even (x / q)) :: rat)"
    by simp
  then have r: "0 < of_int (round_half_even (x / q)) * q"
    using q(1) by simp
  have "round64_pos x =
     (if (2::rat) ^ 1024 \<le> of_int (round_half_even (x / q)) * q
      then PosInf
      else Fin (of_int (round_half_even (x / q)) * q))"
    unfolding q_def using x b e0 by (intro round64_pos_at) simp_all
  with r show ?thesis
    by simp
qed

lemma floor_rat_numeral:
  "\<lfloor>numeral a / numeral b :: rat\<rfloor> = numeral a div numeral b"
  using floor_divide_of_int_eq [of "numeral a" "numeral b", where ?'a = rat] by simp

lemma round64_examples:
  "round64 (5 / 2) = Fin (5 / 2)"
  "round64 9007199254741020 = Fin 9007199254741020"
  "round64 9007199254741019 = Fin 9007199254741020"
  "round64 9007199254740993 = Fin 9007199254740992"
proof -
  show "round64 (5 / 2) = Fin (5 / 2)"
    using round64_pos_at [of "5 / 2" 1]
    by (simp add: round64_def round_half_even_def)
  show "round64 9007199254741020 = Fin 9007199254741020"
    using round64_pos_at [of 9007199254741020 53]
    by (simp add: round64_def round_half_even_def)
  show "round64 9007199254741019 = Fin 9007199254741020"
    using round64_pos_at [of 9007199254741019 53]
    by (simp add: round64_def round_half_even_def floor_rat_numeral)
  show "round64 9007199254740993 = Fin 9007199254740992"
    using round64_pos_at [of 9007199254740993 53]
    by (simp add: round64_def round_half_even_def floor_rat_numeral)
qed

declare round64_numeral [simp]

section \<open>Facts about the arithmetic\<close>

lemma round64_ge_1_positive:
  assumes "1 \<le> x"
  shows "js_gt (round64 x) (Fin 0)"
proof -
  from round64_pos_positive [OF assms] have "js_gt (round64_pos x) (Fin 0)"
    by auto
  with assms show ?thesis
    by (simp add: round64_def)
qed

lemma js_add_int:
  assumes "0 \<le> k" and "k < 2 ^ 53"
  shows "js_add (Fin (of_int k)) (Fin 1) = Fin (of_int (k + 1))"
  using assms round64_int [of "k + 1"] by simp

lemma js_sub_int:
  assumes "1 \<le> n" and "n \<le> 2 ^ 53"
  shows "js_sub (Fin (of_int n)) (Fin 1) = Fin (of_int (n - 1))"
  using assms round64_int [of "n - 1"] by simp

lemma js_mul_int:
  assumes "0 \<le> m" and "m * 60 \<le> 2 ^ 53"
  shows "js_mul (Fin (of_int m)) (Fin 60) = Fin (of_int (m * 60))"
  using assms round64_int [of "m * 60"] by simp

lemma js_or_not_NaN: "b \<noteq> NaN \<Longrightarrow> js_or a b \<noteq> NaN"
  by (cases a) (simp_all add: js_or_def)

lemma js_max_ge_left: "b \<noteq> NaN \<Longrightarrow> js_ge (js_max (Fin x) b) (Fin x)"
  by (cases b) simp_all

lemma clamped_ge_1: "js_ge (js_max (Fin 1) (js_or n (Fin 1))) (Fin 1)"
  by (rule js_max_ge_left) (simp add: js_or_not_NaN)

lemma clampMin_ge_1: "clampMin v = Inr c \<Longrightarrow> js_ge c (Fin 1)"
  by (cases "Number v") (auto simp add: clampMin_def and_then_def clamped_ge_1)

lemma longEvery_ge_1: "js_ge (js_max (Fin 1) (js_or n (Fin 4))) (Fin 1)"
  by (rule js_max_ge_left) (simp add: js_or_not_NaN)

lemma minutes_positive: "js_ge c (Fin 1) \<Longrightarrow> js_gt (js_mul c (Fin 60)) (Fin 0)"
proof (cases c)
  case (Fin x)
  assume "js_ge c (Fin 1)"
  with Fin have "1 \<le> x * 60" by simp
  then have "js_gt (round64 (x * 60)) (Fin 0)"
    by (rule round64_ge_1_positive)
  with Fin show ?thesis by simp
qed simp_all

lemma secondsForMode_positive: "config_ok c \<Longrightarrow> js_gt (secondsForMode m c) (Fin 0)"
  by (simp add: secondsForMode_def config_ok_def minutes_positive)

lemma ge_2_pred_positive: "js_ge a (Fin 2) \<Longrightarrow> js_gt (js_sub a (Fin 1)) (Fin 0)"
proof (cases a)
  case (Fin x)
  assume "js_ge a (Fin 2)"
  with Fin have "1 \<le> x - 1" by simp
  then have "js_gt (round64 (x - 1)) (Fin 0)"
    by (rule round64_ge_1_positive)
  with Fin show ?thesis by simp
qed simp_all

lemma secondsForMode_cases:
  "secondsForMode Work c = js_mul (workMin c) (Fin 60)"
  "secondsForMode ShortBreak c = js_mul (shortMin c) (Fin 60)"
  "secondsForMode LongBreak c = js_mul (longMin c) (Fin 60)"
  by (simp_all add: secondsForMode_def)

subsection \<open>The remainder\<close>

lemma trunc_of_int: "trunc (of_int m) = m"
  by (simp add: trunc_def)

lemma int_rem_zero_iff:
  assumes "e \<noteq> 0"
  shows "(of_int k - of_int e * of_int (trunc (of_int k / of_int e)) = (0::rat)) = (e dvd k)"
proof
  assume "of_int k - of_int e * of_int (trunc (of_int k / of_int e)) = (0::rat)"
  then have "(of_int (k - e * trunc (of_int k / of_int e)) :: rat) = of_int 0"
    by simp
  then have "k - e * trunc (of_int k / of_int e) = 0"
    by (simp only: of_int_eq_iff)
  then have "k = e * trunc (of_int k / of_int e)"
    by simp
  then show "e dvd k"
    by (rule dvdI)
next
  assume "e dvd k"
  then obtain m where k: "k = e * m"
    by (rule dvdE)
  have "(of_int k / of_int e :: rat) = of_int m"
    using assms by (simp add: k)
  then show "of_int k - of_int e * of_int (trunc (of_int k / of_int e)) = (0::rat)"
    by (simp add: trunc_of_int k)
qed

lemma rat_rem_zero_iff:
  fixes x y :: rat
  assumes "y \<noteq> 0"
  shows "(x - y * of_int (trunc (x / y)) = 0) = (x / y \<in> \<int>)"
proof
  assume "x - y * of_int (trunc (x / y)) = 0"
  then have "x = y * of_int (trunc (x / y))"
    by simp
  then have "x / y = of_int (trunc (x / y))"
    using assms by (simp add: field_simps)
  then show "x / y \<in> \<int>"
    by (metis Ints_of_int)
next
  assume "x / y \<in> \<int>"
  then obtain m where m: "x / y = of_int m"
    by (rule Ints_cases)
  then have "trunc (x / y) = m"
    by (simp add: trunc_of_int)
  moreover have "y * (x / y) = x"
    using assms by simp
  ultimately show "x - y * of_int (trunc (x / y)) = 0"
    using m by simp
qed

lemma js_rem_zero:
  assumes "e \<noteq> 0"
  shows "js_strict_eq (js_rem (Fin k) (Fin e)) (Fin 0) = (k / e \<in> \<int>)"
  using assms rat_rem_zero_iff [OF assms, of k] by simp

lemma nextMode_work_rat:
  assumes "longEvery c = Fin e" and "e \<noteq> 0"
  shows "nextMode Work (Fin k) c = (if k / e \<in> \<int> then LongBreak else ShortBreak)"
  unfolding nextMode_def assms(1) js_rem_zero [OF assms(2)] by simp

lemma js_rem_int_zero:
  assumes "e \<noteq> 0"
  shows "js_strict_eq (js_rem (Fin (of_int k)) (Fin (of_int e))) (Fin 0) = (e dvd k)"
  using assms int_rem_zero_iff [OF assms, of k] by simp

lemma nextMode_work_int:
  assumes "longEvery c = Fin (of_int e)" and "e \<noteq> 0"
  shows "nextMode Work (Fin (of_int k)) c = (if e dvd k then LongBreak else ShortBreak)"
  unfolding nextMode_def assms(1) js_rem_int_zero [OF assms(2)] by simp

lemma js_rem_numeral_zero:
  "js_strict_eq (js_rem (Fin (numeral k)) (Fin (numeral e))) (Fin 0)
     = ((numeral e :: int) dvd numeral k)"
  "js_strict_eq (js_rem (Fin 1) (Fin (numeral e))) (Fin 0) = ((numeral e :: int) dvd 1)"
  using js_rem_int_zero [of "numeral e" "numeral k"] js_rem_int_zero [of "numeral e" 1]
  by simp_all

lemma nextMode_work_numeral:
  assumes "longEvery c = Fin (numeral e)"
  shows "nextMode Work (Fin (numeral k)) c =
           (if (numeral e :: int) dvd numeral k then LongBreak else ShortBreak)"
    and "nextMode Work (Fin 1) c = (if (numeral e :: int) dvd 1 then LongBreak else ShortBreak)"
  using assms nextMode_work_int [of c "numeral e" "numeral k"]
    nextMode_work_int [of c "numeral e" 1]
  by simp_all

section \<open>What the reducers return\<close>







lemma error_is_TypeError: "(e :: error) = TypeError"
  by (cases e) simp

lemma and_then_error: "and_then r f = Inl e \<Longrightarrow> and_then r f = Inl TypeError"
  using error_is_TypeError [of e] by simp



text \<open>
  The config that \<^verbatim>\<open>APPLY_CONFIG\<close> stores, when it returns: the clamped conversions
  of the four fields.
\<close>

lemma reducer_apply_config:
  assumes "reducer s (APPLY_CONFIG po) = Inr s'"
  shows "\<exists>p w sh lo n. po = Some p
     \<and> clampMin (workMin p) = Inr w \<and> clampMin (shortMin p) = Inr sh
     \<and> clampMin (longMin p) = Inr lo \<and> Number (longEvery p) = Inr n
     \<and> s' = s\<lparr>config := \<lparr>workMin = w, shortMin = sh, longMin = lo,
                         longEvery = js_max (Fin 1) (js_or n (Fin 4))\<rparr>,
              secondsLeft := secondsForMode (mode s)
                \<lparr>workMin = w, shortMin = sh, longMin = lo,
                 longEvery = js_max (Fin 1) (js_or n (Fin 4))\<rparr>,
              status := Idle, announce := ''Settings applied''\<rparr>"
proof (cases po)
  case None
  with assms show ?thesis by simp
next
  case (Some p)
  with assms show ?thesis
    by (auto simp add: and_then_def Let_def split: sum.splits)
qed

lemma app_reducer_apply_config:
  assumes "app_reducer s (APPLY_CONFIG po) = Inr s'"
  shows "\<exists>p w sh lo n. po = Some p
     \<and> clampMin (workMin p) = Inr w \<and> clampMin (shortMin p) = Inr sh
     \<and> clampMin (longMin p) = Inr lo \<and> Number (longEvery p) = Inr n
     \<and> s' = s\<lparr>config := \<lparr>workMin = w, shortMin = sh, longMin = lo,
                         longEvery = js_max (Fin 1) (js_or n (Fin 4))\<rparr>,
              secondsLeft := secondsForMode (mode s)
                \<lparr>workMin = w, shortMin = sh, longMin = lo,
                 longEvery = js_max (Fin 1) (js_or n (Fin 4))\<rparr>,
              status := Idle, announce := ''Settings applied''\<rparr>"
proof (cases po)
  case None
  with assms show ?thesis by simp
next
  case (Some p)
  with assms show ?thesis
    by (auto simp add: and_then_def Let_def split: sum.splits)
qed

lemma applied_config_ok:
  assumes "clampMin a = Inr w" and "clampMin b = Inr sh" and "clampMin c = Inr lo"
  shows "config_ok \<lparr>workMin = w, shortMin = sh, longMin = lo,
                    longEvery = js_max (Fin 1) (js_or n (Fin 4))\<rparr>"
  using assms by (simp add: config_ok_def clampMin_ge_1 longEvery_ge_1)

section \<open>The invariant of the reachable states\<close>

lemma initialState_inv: "timer_inv initialState"
  by (simp add: timer_inv_def config_ok_def initialState_def)

lemma app_initialState_inv: "timer_inv app_initialState"
  by (simp add: timer_inv_def config_ok_def app_initialState_def)

lemma reducer_inv:
  assumes "timer_inv s" and "reducer s a = Inr s'"
  shows "timer_inv s'"
proof (cases a)
  case (APPLY_CONFIG po)
  with assms(2) reducer_apply_config [of s po s'] show ?thesis
    by (auto simp add: timer_inv_def secondsForMode_positive applied_config_ok)
next
  case TICK
  with assms show ?thesis
    by (auto simp add: timer_inv_def Let_def secondsForMode_positive split: if_splits)
qed (use assms in \<open>auto simp add: timer_inv_def secondsForMode_positive split: if_splits\<close>)

lemma app_reducer_inv:
  assumes "timer_inv s" and "app_reducer s a = Inr s'"
  shows "timer_inv s'"
proof (cases a)
  case (APPLY_CONFIG po)
  with assms(2) app_reducer_apply_config [of s po s'] show ?thesis
    by (auto simp add: timer_inv_def secondsForMode_positive applied_config_ok)
next
  case TICK
  with assms show ?thesis
    by (auto simp add: timer_inv_def Let_def secondsForMode_positive split: if_splits)
qed (use assms in \<open>auto simp add: timer_inv_def secondsForMode_positive split: if_splits\<close>)

lemma run_inv:
  "timer_inv s \<Longrightarrow> run reducer s as = Inr s' \<Longrightarrow> timer_inv s'"
proof (induction as arbitrary: s)
  case Nil
  then show ?case by simp
next
  case (Cons a as)
  then show ?case
    by (cases "reducer s a") (auto simp del: reducer.simps dest: reducer_inv)
qed

lemma app_run_inv:
  "timer_inv s \<Longrightarrow> run app_reducer s as = Inr s' \<Longrightarrow> timer_inv s'"
proof (induction as arbitrary: s)
  case Nil
  then show ?case by simp
next
  case (Cons a as)
  then show ?case
    by (cases "app_reducer s a") (auto simp del: app_reducer.simps dest: app_reducer_inv)
qed

lemma run_append:
  "run step s (as @ bs) = (case run step s as of Inl e \<Rightarrow> Inl e | Inr s' \<Rightarrow> run step s' bs)"
  by (induction as arbitrary: s) (simp_all split: sum.splits)

section \<open>Ticks in the middle of a session\<close>

lemma tick_mid:
  assumes "status s = Running" and "secondsLeft s = Fin (of_int n)"
    and "2 \<le> n" and "n \<le> 2 ^ 53"
  shows "reducer s TICK = Inr (s\<lparr>secondsLeft := Fin (of_int (n - 1))\<rparr>)"
proof -
  have "js_sub (Fin (of_int n)) (Fin 1) = Fin (of_int (n - 1))"
    using assms(3,4) by (intro js_sub_int) simp_all
  with assms show ?thesis
    by (simp del: js_sub.simps)
qed

lemma ticks_mid:
  "status s = Running \<Longrightarrow> secondsLeft s = Fin (of_int n) \<Longrightarrow> int k < n \<Longrightarrow> n \<le> 2 ^ 53 \<Longrightarrow>
   run reducer s (replicate k TICK) = Inr (s\<lparr>secondsLeft := Fin (of_int (n - int k))\<rparr>)"
proof (induction k arbitrary: s n)
  case 0
  then show ?case by simp
next
  case (Suc k)
  have step: "reducer s TICK = Inr (s\<lparr>secondsLeft := Fin (of_int (n - 1))\<rparr>)"
    using Suc.prems by (intro tick_mid) simp_all
  have "run reducer (s\<lparr>secondsLeft := Fin (of_int (n - 1))\<rparr>) (replicate k TICK)
        = Inr (s\<lparr>secondsLeft := Fin (of_int (n - 1))\<rparr>
                \<lparr>secondsLeft := Fin (of_int (n - 1 - int k))\<rparr>)"
    using Suc.prems by (intro Suc.IH) simp_all
  moreover have "n - 1 - int k = n - int (Suc k)"
    by simp
  ultimately show ?case
    by (simp add: step del: reducer.simps)
qed

text \<open>
  The scenario of the specification: from the initial state, a start and 1500 ticks
  complete the first work session.
\<close>

lemma scenario_first_work_session:
  "run reducer initialState (START # replicate 1500 TICK) =
     Inr \<lparr>mode = ShortBreak, status = Running,
          config = \<lparr>workMin = Fin 25, shortMin = Fin 5, longMin = Fin 15, longEvery = Fin 4\<rparr>,
          secondsLeft = Fin 300, workSessionsCompleted = Fin 1,
          announce = ''Session complete. Next: Short Break''\<rparr>"
proof -
  let ?r = "initialState\<lparr>status := Running, announce := ''''\<rparr>"
  have "replicate (Suc 1499) TICK = replicate 1499 TICK @ [TICK]"
    by (simp only: replicate_Suc replicate_append_same)
  moreover have "Suc 1499 = 1500"
    by simp
  ultimately have split: "replicate 1500 TICK = replicate 1499 TICK @ [TICK]"
    by (simp only:)
  have "run reducer ?r (replicate 1499 TICK)
          = Inr (?r\<lparr>secondsLeft := Fin (of_int (1500 - int 1499))\<rparr>)"
    by (rule ticks_mid) (simp_all add: initialState_def)
  then have mid: "run reducer ?r (replicate 1499 TICK) = Inr (?r\<lparr>secondsLeft := Fin 1\<rparr>)"
    by simp
  have start: "reducer initialState START = Inr ?r"
    by (simp add: initialState_def)
  have last: "reducer (?r\<lparr>secondsLeft := Fin 1\<rparr>) TICK =
     Inr \<lparr>mode = ShortBreak, status = Running,
          config = \<lparr>workMin = Fin 25, shortMin = Fin 5, longMin = Fin 15, longEvery = Fin 4\<rparr>,
          secondsLeft = Fin 300, workSessionsCompleted = Fin 1,
          announce = ''Session complete. Next: Short Break''\<rparr>"
    by (simp add: initialState_def nextMode_work_numeral secondsForMode_def)
  show ?thesis
    by (simp only: run.simps start sum.case split run_append mid last)
qed

section \<open>Conversions and durations used below\<close>

lemma conversions:
  "StringToNumber ''abc'' = NaN"
  "StringToNumber ''-5'' = Fin (- 5)"
  "StringToNumber ''10'' = Fin 10"
  "StringToNumber ''0'' = Fin 0"
  "StringToNumber '''' = Fin 0"
  "StringToNumber ''2.5'' = Fin (5 / 2)"
  "StringToNumber ''5'' = Fin 5"
  "StringToNumber ''15'' = Fin 15"
  "StringToNumber ''4'' = Fin 4"
  "StringToNumber ''150119987579017'' = Fin 150119987579017"
  "StringToNumber ''Infinity'' = PosInf"
  by (simp_all add: string_to_number_defs round64_examples)

lemma secondsForMode_minutes:
  "secondsForMode m c =
     js_mul (case m of Work \<Rightarrow> workMin c | ShortBreak \<Rightarrow> shortMin c | LongBreak \<Rightarrow> longMin c)
       (Fin 60)"
  by (cases m) (simp_all add: secondsForMode_def)

lemma tick_complete:
  assumes "status s = Running" and "\<not> js_gt (js_sub (secondsLeft s) (Fin 1)) (Fin 0)"
  shows "reducer s TICK =
     Inr (s\<lparr>mode := nextMode (mode s)
                  (if mode s = Work then js_add (workSessionsCompleted s) (Fin 1)
                   else workSessionsCompleted s) (config s),
            workSessionsCompleted :=
                  (if mode s = Work then js_add (workSessionsCompleted s) (Fin 1)
                   else workSessionsCompleted s),
            secondsLeft := secondsForMode
               (nextMode (mode s)
                  (if mode s = Work then js_add (workSessionsCompleted s) (Fin 1)
                   else workSessionsCompleted s) (config s)) (config s),
            announce := ''Session complete. Next: '' @ modeLabel
               (nextMode (mode s)
                  (if mode s = Work then js_add (workSessionsCompleted s) (Fin 1)
                   else workSessionsCompleted s) (config s))\<rparr>)"
  using assms by (simp add: Let_def del: js_add.simps js_sub.simps)

lemma app_tick_complete:
  assumes "status t = Running" and "\<not> js_gt (js_sub (secondsLeft t) (Fin 1)) (Fin 0)"
  shows "app_reducer t TICK =
     Inr (t\<lparr>mode := nextMode (mode t)
                  (if mode t = Work then js_add (workSessionsCompleted t) (Fin 1)
                   else workSessionsCompleted t) (config t),
            workSessionsCompleted :=
                  (if mode t = Work then js_add (workSessionsCompleted t) (Fin 1)
                   else workSessionsCompleted t),
            secondsLeft := secondsForMode
               (nextMode (mode t)
                  (if mode t = Work then js_add (workSessionsCompleted t) (Fin 1)
                   else workSessionsCompleted t) (config t)) (config t),
            announce := ''Session complete. Next: '' @ modeLabel
               (nextMode (mode t)
                  (if mode t = Work then js_add (workSessionsCompleted t) (Fin 1)
                   else workSessionsCompleted t) (config t))\<rparr>)"
  using assms by (simp add: Let_def nextMode_def del: js_add.simps js_sub.simps)

lemma one_second_left: "\<not> js_gt (js_sub (Fin 1) (Fin 1)) (Fin 0)"
  by simp

section \<open>Completing a session\<close>

text \<open>
  C1, as the spec states it, has the count of completed work sessions incremented in
  every state whose mode is work. The count is a binary64 Number: at \<open>2\<^sup>5\<^sup>3\<close> the sum
  \<open>count + 1\<close> rounds back to the count, and the tick that completes a work session
  leaves the count as it was.
\<close>

theorem tick_count_saturates:
  "mode (initialState\<lparr>status := Running, secondsLeft := Fin 1,
                     workSessionsCompleted := Fin 9007199254740992\<rparr>) = Work
   \<and> reducer (initialState\<lparr>status := Running, secondsLeft := Fin 1,
                           workSessionsCompleted := Fin 9007199254740992\<rparr>) TICK
     = Inr \<lparr>mode = LongBreak, status = Running,
            config = \<lparr>workMin = Fin 25, shortMin = Fin 5, longMin = Fin 15,
                      longEvery = Fin 4\<rparr>,
            secondsLeft = Fin 900, workSessionsCompleted = Fin 9007199254740992,
            announce = ''Session complete. Next: Long Break''\<rparr>"
  by (simp add: initialState_def Let_def nextMode_def secondsForMode_def round64_examples
      js_rem_numeral_zero del: js_rem.simps)

text \<open>
  C1, amended. A tick in a running state with one second left completes the session.
  The count of completed work sessions becomes \<^verbatim>\<open>count + 1\<close> in binary64 when the mode
  was work, which is exactly one more for an integer count from 0 up to, but not
  including, \<open>2\<^sup>5\<^sup>3\<close>, and stays as it was in the other modes. The mode becomes the one
  \<open>nextMode\<close> selects from the old mode and the new count; the seconds left become
  the duration of that mode under the unchanged config, that is its minutes (work, short
  break or long break) times 60, which is exact for whole minutes up to \<open>2\<^sup>5\<^sup>3\<close> seconds;
  the announcement becomes "Session complete. Next: " followed by the label of the new
  mode; the status stays running. Both reducers do so.
\<close>

theorem tick_completes_session:
  fixes s :: "'a timer_state_scheme" and t :: app_state
  assumes "status s = Running" and "secondsLeft s = Fin 1"
    and "status t = Running" and "secondsLeft t = Fin 1"
  shows
    "(\<exists>s'. reducer s TICK = Inr s'
        \<and> workSessionsCompleted s' =
            (if mode s = Work then js_add (workSessionsCompleted s) (Fin 1)
             else workSessionsCompleted s)
        \<and> (\<forall>k. 0 \<le> k \<and> k < 2 ^ 53 \<and> workSessionsCompleted s = Fin (of_int k) \<longrightarrow>
              workSessionsCompleted s' = Fin (of_int (if mode s = Work then k + 1 else k)))
        \<and> mode s' = nextMode (mode s) (workSessionsCompleted s') (config s)
        \<and> secondsLeft s' = secondsForMode (mode s') (config s)
        \<and> secondsLeft s' =
            js_mul (case mode s' of Work \<Rightarrow> workMin (config s)
                    | ShortBreak \<Rightarrow> shortMin (config s)
                    | LongBreak \<Rightarrow> longMin (config s)) (Fin 60)
        \<and> announce s' = ''Session complete. Next: '' @ modeLabel (mode s')
        \<and> status s' = Running
        \<and> config s' = config s
        \<and> timer_state.more s' = timer_state.more s)
     \<and> (\<exists>t'. app_reducer t TICK = Inr t'
        \<and> workSessionsCompleted t' =
            (if mode t = Work then js_add (workSessionsCompleted t) (Fin 1)
             else workSessionsCompleted t)
        \<and> (\<forall>k. 0 \<le> k \<and> k < 2 ^ 53 \<and> workSessionsCompleted t = Fin (of_int k) \<longrightarrow>
              workSessionsCompleted t' = Fin (of_int (if mode t = Work then k + 1 else k)))
        \<and> mode t' = nextMode (mode t) (workSessionsCompleted t') (config t)
        \<and> secondsLeft t' = secondsForMode (mode t') (config t)
        \<and> secondsLeft t' =
            js_mul (case mode t' of Work \<Rightarrow> workMin (config t)
                    | ShortBreak \<Rightarrow> shortMin (config t)
                    | LongBreak \<Rightarrow> longMin (config t)) (Fin 60)
        \<and> announce t' = ''Session complete. Next: '' @ modeLabel (mode t')
        \<and> status t' = Running
        \<and> config t' = config t
        \<and> soundEnabled t' = soundEnabled t)
     \<and> (\<forall>m. 0 \<le> m \<and> m * 60 \<le> 2 ^ 53 \<longrightarrow>
           js_mul (Fin (of_int m)) (Fin 60) = Fin (of_int (m * 60)))"
proof -
  have rs: "\<not> js_gt (js_sub (secondsLeft s) (Fin 1)) (Fin 0)"
    unfolding assms(2) by (rule one_second_left)
  have rt: "\<not> js_gt (js_sub (secondsLeft t) (Fin 1)) (Fin 0)"
    unfolding assms(4) by (rule one_second_left)
  have count: "0 \<le> k \<and> k < 2 ^ 53 \<longrightarrow> js_add (Fin (of_int k)) (Fin 1) = Fin (of_int (k + 1))"
    for k :: int
    by (simp add: js_add_int del: js_add.simps)
  have minutes: "\<forall>m. 0 \<le> m \<and> m * 60 \<le> 2 ^ 53 \<longrightarrow>
      js_mul (Fin (of_int m)) (Fin 60) = Fin (of_int (m * 60))"
    by (simp add: js_mul_int del: js_mul.simps)
  have first: "\<exists>s'. reducer s TICK = Inr s'
        \<and> workSessionsCompleted s' =
            (if mode s = Work then js_add (workSessionsCompleted s) (Fin 1)
             else workSessionsCompleted s)
        \<and> (\<forall>k. 0 \<le> k \<and> k < 2 ^ 53 \<and> workSessionsCompleted s = Fin (of_int k) \<longrightarrow>
              workSessionsCompleted s' = Fin (of_int (if mode s = Work then k + 1 else k)))
        \<and> mode s' = nextMode (mode s) (workSessionsCompleted s') (config s)
        \<and> secondsLeft s' = secondsForMode (mode s') (config s)
        \<and> secondsLeft s' =
            js_mul (case mode s' of Work \<Rightarrow> workMin (config s)
                    | ShortBreak \<Rightarrow> shortMin (config s)
                    | LongBreak \<Rightarrow> longMin (config s)) (Fin 60)
        \<and> announce s' = ''Session complete. Next: '' @ modeLabel (mode s')
        \<and> status s' = Running
        \<and> config s' = config s
        \<and> timer_state.more s' = timer_state.more s"
    unfolding tick_complete [OF assms(1) rs]
    using assms(1) count
    by (auto simp add: secondsForMode_minutes simp del: js_add.simps js_mul.simps)
  have second: "\<exists>t'. app_reducer t TICK = Inr t'
        \<and> workSessionsCompleted t' =
            (if mode t = Work then js_add (workSessionsCompleted t) (Fin 1)
             else workSessionsCompleted t)
        \<and> (\<forall>k. 0 \<le> k \<and> k < 2 ^ 53 \<and> workSessionsCompleted t = Fin (of_int k) \<longrightarrow>
              workSessionsCompleted t' = Fin (of_int (if mode t = Work then k + 1 else k)))
        \<and> mode t' = nextMode (mode t) (workSessionsCompleted t') (config t)
        \<and> secondsLeft t' = secondsForMode (mode t') (config t)
        \<and> secondsLeft t' =
            js_mul (case mode t' of Work \<Rightarrow> workMin (config t)
                    | ShortBreak \<Rightarrow> shortMin (config t)
                    | LongBreak \<Rightarrow> longMin (config t)) (Fin 60)
        \<and> announce t' = ''Session complete. Next: '' @ modeLabel (mode t')
        \<and> status t' = Running
        \<and> config t' = config t
        \<and> soundEnabled t' = soundEnabled t"
    unfolding app_tick_complete [OF assms(3) rt]
    using assms(3) count
    by (auto simp add: secondsForMode_minutes simp del: js_add.simps js_mul.simps)
  from first second minutes show ?thesis
    by (intro conjI)
qed

text \<open>
  The witness completes a work session (the short break, 300 seconds, follows), the
  fourth work session (the long break, 900 seconds) and a short break (work, 1500
  seconds).
\<close>

theorem tick_completes_session_witness:
  "status (initialState\<lparr>status := Running, secondsLeft := Fin 1\<rparr>) = Running
   \<and> secondsLeft (initialState\<lparr>status := Running, secondsLeft := Fin 1\<rparr>) = Fin 1
   \<and> (0::int) \<le> 3 \<and> (3::int) < 2 ^ 53 \<and> (0::int) \<le> 25 \<and> (25::int) * 60 \<le> 2 ^ 53
   \<and> reducer (initialState\<lparr>status := Running, secondsLeft := Fin 1\<rparr>) TICK
     = Inr \<lparr>mode = ShortBreak, status = Running,
            config = \<lparr>workMin = Fin 25, shortMin = Fin 5, longMin = Fin 15,
                      longEvery = Fin 4\<rparr>,
            secondsLeft = Fin 300, workSessionsCompleted = Fin 1,
            announce = ''Session complete. Next: Short Break''\<rparr>
   \<and> app_reducer (app_initialState\<lparr>status := Running, secondsLeft := Fin 1,
                                   workSessionsCompleted := Fin 3\<rparr>) TICK
     = Inr \<lparr>mode = LongBreak, status = Running,
            config = \<lparr>workMin = Fin 25, shortMin = Fin 5, longMin = Fin 15,
                      longEvery = Fin 4\<rparr>,
            secondsLeft = Fin 900, workSessionsCompleted = Fin 4,
            announce = ''Session complete. Next: Long Break'', soundEnabled = True\<rparr>
   \<and> reducer (initialState\<lparr>mode := ShortBreak, status := Running, secondsLeft := Fin 1,
                           workSessionsCompleted := Fin 1\<rparr>) TICK
     = Inr \<lparr>mode = Work, status = Running,
            config = \<lparr>workMin = Fin 25, shortMin = Fin 5, longMin = Fin 15,
                      longEvery = Fin 4\<rparr>,
            secondsLeft = Fin 1500, workSessionsCompleted = Fin 1,
            announce = ''Session complete. Next: Work''\<rparr>
   \<and> js_mul (Fin 25) (Fin 60) = Fin 1500"
  using
    tick_completes_session
      [of "initialState\<lparr>status := Running, secondsLeft := Fin 1\<rparr>"
          "app_initialState\<lparr>status := Running, secondsLeft := Fin 1,
             workSessionsCompleted := Fin 3\<rparr>"]
    tick_completes_session
      [of "initialState\<lparr>mode := ShortBreak, status := Running, secondsLeft := Fin 1,
             workSessionsCompleted := Fin 1\<rparr>"
          "app_initialState\<lparr>status := Running, secondsLeft := Fin 1,
             workSessionsCompleted := Fin 3\<rparr>"]
  by (simp add: initialState_def app_initialState_def Let_def nextMode_def
      secondsForMode_def js_rem_numeral_zero del: js_rem.simps)

section \<open>The rollover rule\<close>

text \<open>
  C2. When a session completes, the next mode after a break (short or long) is work.
  After work, with a count \<open>k\<close> of completed work sessions that already includes the
  one just finished and a non-zero integer \<open>longEvery = e\<close>, it is the long break when
  \<open>e\<close> divides \<open>k\<close> and the short break otherwise (for finite Numbers in general:
  when the count is an integer multiple of a non-zero \<open>longEvery\<close>); with
  \<open>longEvery = 4\<close> the counts 1, 2 and 3 give the short break and 4 gives the long
  break. Both reducers select the mode of a completed session by this rule, from the old
  mode and the new count.
\<close>

theorem next_mode_rollover:
  fixes s :: "'a timer_state_scheme" and t :: app_state
  shows
    "nextMode ShortBreak n c = Work
     \<and> nextMode LongBreak n c = Work
     \<and> (longEvery c = Fin (of_int e) \<and> e \<noteq> 0 \<longrightarrow>
          nextMode Work (Fin (of_int k)) c = (if e dvd k then LongBreak else ShortBreak))
     \<and> (longEvery c = Fin q \<and> q \<noteq> 0 \<longrightarrow>
          nextMode Work (Fin x) c = (if x / q \<in> \<int> then LongBreak else ShortBreak))
     \<and> (longEvery c = Fin 4 \<longrightarrow>
          nextMode Work (Fin 1) c = ShortBreak \<and> nextMode Work (Fin 2) c = ShortBreak
          \<and> nextMode Work (Fin 3) c = ShortBreak \<and> nextMode Work (Fin 4) c = LongBreak)
     \<and> (status s = Running \<and> \<not> js_gt (js_sub (secondsLeft s) (Fin 1)) (Fin 0) \<longrightarrow>
          (\<exists>s'. reducer s TICK = Inr s'
             \<and> mode s' = nextMode (mode s) (workSessionsCompleted s') (config s)))
     \<and> (status t = Running \<and> \<not> js_gt (js_sub (secondsLeft t) (Fin 1)) (Fin 0) \<longrightarrow>
          (\<exists>t'. app_reducer t TICK = Inr t'
             \<and> mode t' = nextMode (mode t) (workSessionsCompleted t') (config t)))"
proof -
  have breaks: "nextMode ShortBreak n c = Work" "nextMode LongBreak n c = Work"
    by (simp_all add: nextMode_def)
  have ints: "longEvery c = Fin (of_int e) \<and> e \<noteq> 0 \<longrightarrow>
      nextMode Work (Fin (of_int k)) c = (if e dvd k then LongBreak else ShortBreak)"
    by (simp add: nextMode_work_int)
  have rats: "longEvery c = Fin q \<and> q \<noteq> 0 \<longrightarrow>
      nextMode Work (Fin x) c = (if x / q \<in> \<int> then LongBreak else ShortBreak)"
    by (simp add: nextMode_work_rat)
  have four: "longEvery c = Fin 4 \<longrightarrow>
      nextMode Work (Fin 1) c = ShortBreak \<and> nextMode Work (Fin 2) c = ShortBreak
      \<and> nextMode Work (Fin 3) c = ShortBreak \<and> nextMode Work (Fin 4) c = LongBreak"
    by (simp add: nextMode_work_numeral)
  have red: "status s = Running \<and> \<not> js_gt (js_sub (secondsLeft s) (Fin 1)) (Fin 0) \<longrightarrow>
      (\<exists>s'. reducer s TICK = Inr s'
         \<and> mode s' = nextMode (mode s) (workSessionsCompleted s') (config s))"
    by (simp add: tick_complete del: reducer.simps)
  have app: "status t = Running \<and> \<not> js_gt (js_sub (secondsLeft t) (Fin 1)) (Fin 0) \<longrightarrow>
      (\<exists>t'. app_reducer t TICK = Inr t'
         \<and> mode t' = nextMode (mode t) (workSessionsCompleted t') (config t))"
    by (simp add: app_tick_complete del: app_reducer.simps)
  from breaks ints rats four red app show ?thesis
    by (intro conjI)
qed

text \<open>
  The witness completes four work sessions in a row with \<open>longEvery = 4\<close>, each from a
  running work state with one second left and the count the session before left.
\<close>

theorem next_mode_rollover_witness:
  "longEvery (config initialState) = Fin (of_int 4) \<and> (4::int) \<noteq> 0
   \<and> longEvery (config initialState) = Fin 4 \<and> (4::rat) \<noteq> 0
   \<and> nextMode Work (Fin (of_int 8)) (config initialState) = LongBreak
   \<and> nextMode Work (Fin (of_int 9)) (config initialState) = ShortBreak
   \<and> status (initialState\<lparr>status := Running, secondsLeft := Fin 1\<rparr>) = Running
   \<and> \<not> js_gt (js_sub (secondsLeft (initialState\<lparr>status := Running, secondsLeft := Fin 1\<rparr>))
                (Fin 1)) (Fin 0)
   \<and> reducer (initialState\<lparr>status := Running, secondsLeft := Fin 1,
                           workSessionsCompleted := Fin 0\<rparr>) TICK
     = Inr (initialState\<lparr>status := Running, mode := ShortBreak, secondsLeft := Fin 300,
              workSessionsCompleted := Fin 1,
              announce := ''Session complete. Next: Short Break''\<rparr>)
   \<and> reducer (initialState\<lparr>status := Running, secondsLeft := Fin 1,
                           workSessionsCompleted := Fin 1\<rparr>) TICK
     = Inr (initialState\<lparr>status := Running, mode := ShortBreak, secondsLeft := Fin 300,
              workSessionsCompleted := Fin 2,
              announce := ''Session complete. Next: Short Break''\<rparr>)
   \<and> reducer (initialState\<lparr>status := Running, secondsLeft := Fin 1,
                           workSessionsCompleted := Fin 2\<rparr>) TICK
     = Inr (initialState\<lparr>status := Running, mode := ShortBreak, secondsLeft := Fin 300,
              workSessionsCompleted := Fin 3,
              announce := ''Session complete. Next: Short Break''\<rparr>)
   \<and> reducer (initialState\<lparr>status := Running, secondsLeft := Fin 1,
                           workSessionsCompleted := Fin 3\<rparr>) TICK
     = Inr (initialState\<lparr>status := Running, mode := LongBreak, secondsLeft := Fin 900,
              workSessionsCompleted := Fin 4,
              announce := ''Session complete. Next: Long Break''\<rparr>)
   \<and> app_reducer (app_initialState\<lparr>status := Running, secondsLeft := Fin 1,
                                   workSessionsCompleted := Fin 3\<rparr>) TICK
     = Inr (app_initialState\<lparr>status := Running, mode := LongBreak, secondsLeft := Fin 900,
              workSessionsCompleted := Fin 4,
              announce := ''Session complete. Next: Long Break''\<rparr>)
   \<and> app_reducer (app_initialState\<lparr>mode := LongBreak, status := Running,
                                   secondsLeft := Fin 1\<rparr>) TICK
     = Inr (app_initialState\<lparr>status := Running, mode := Work, secondsLeft := Fin 1500,
              announce := ''Session complete. Next: Work''\<rparr>)"
  using
    next_mode_rollover [of "Fin 0" "config initialState" 4 8 4 8
      "initialState\<lparr>status := Running, secondsLeft := Fin 1, workSessionsCompleted := Fin 0\<rparr>"
      "app_initialState\<lparr>status := Running, secondsLeft := Fin 1,
         workSessionsCompleted := Fin 3\<rparr>"]
    next_mode_rollover [of "Fin 0" "config initialState" 4 9 "5 / 2" 5
      "initialState\<lparr>status := Running, secondsLeft := Fin 1, workSessionsCompleted := Fin 1\<rparr>"
      "app_initialState\<lparr>mode := LongBreak, status := Running, secondsLeft := Fin 1\<rparr>"]
    next_mode_rollover [of "Fin 0" "config initialState" 4 9 "5 / 2" 5
      "initialState\<lparr>status := Running, secondsLeft := Fin 1, workSessionsCompleted := Fin 2\<rparr>"
      "app_initialState\<lparr>mode := LongBreak, status := Running, secondsLeft := Fin 1\<rparr>"]
    next_mode_rollover [of "Fin 0" "config initialState" 4 9 "5 / 2" 5
      "initialState\<lparr>status := Running, secondsLeft := Fin 1, workSessionsCompleted := Fin 3\<rparr>"
      "app_initialState\<lparr>mode := LongBreak, status := Running, secondsLeft := Fin 1\<rparr>"]
  by (simp add: initialState_def app_initialState_def nextMode_def Let_def
      secondsForMode_def js_rem_numeral_zero del: js_rem.simps)

section \<open>Applying settings\<close>

text \<open>
  C3, as the spec states it, asks for integers. The reducer clamps from below and never
  rounds to an integer: the payload field "2.5" gives the setting 2.5.
\<close>

theorem applied_config_not_integer:
  "reducer initialState
      (APPLY_CONFIG (Some \<lparr>workMin = JStr ''2.5'', shortMin = JStr ''5'',
                           longMin = JStr ''15'', longEvery = JStr ''4''\<rparr>))
     = Inr \<lparr>mode = Work, status = Idle,
            config = \<lparr>workMin = Fin (5 / 2), shortMin = Fin 5, longMin = Fin 15,
                      longEvery = Fin 4\<rparr>,
            secondsLeft = Fin 150, workSessionsCompleted = Fin 0,
            announce = ''Settings applied''\<rparr>
   \<and> \<not> js_is_integer (Fin (5 / 2))"
proof -
  have "\<lfloor>5 / 2 :: rat\<rfloor> = 2"
    by (simp add: floor_unique)
  then show ?thesis
    by (simp add: initialState_def conversions clampMin_def and_then_def js_or_def Let_def
        secondsForMode_def)
qed

text \<open>
  C3, amended. For every raw payload and every state, each of the four settings that
  \<^verbatim>\<open>APPLY_CONFIG\<close> stores is a Number that compares \<^verbatim>\<open>>= 1\<close> (so it is not NaN; it
  need not be an integer and may be Infinity), and the config of every state that a
  sequence of actions reaches from the initial state has this property. Both reducers.
\<close>

theorem config_at_least_one:
  fixes s s' :: "'a timer_state_scheme" and s2 :: timer_state and t t' t2 :: app_state
  shows
    "(reducer s (APPLY_CONFIG po) = Inr s' \<longrightarrow>
        js_ge (workMin (config s')) (Fin 1) \<and> js_ge (shortMin (config s')) (Fin 1)
        \<and> js_ge (longMin (config s')) (Fin 1) \<and> js_ge (longEvery (config s')) (Fin 1))
     \<and> (app_reducer t (APPLY_CONFIG po) = Inr t' \<longrightarrow> config_ok (config t'))
     \<and> (run reducer initialState as = Inr s2 \<longrightarrow> config_ok (config s2))
     \<and> (run app_reducer app_initialState as = Inr t2 \<longrightarrow> config_ok (config t2))"
proof -
  have 1: "reducer s (APPLY_CONFIG po) = Inr s' \<longrightarrow> config_ok (config s')"
    using reducer_apply_config [of s po s'] by (auto simp add: applied_config_ok)
  have 2: "app_reducer t (APPLY_CONFIG po) = Inr t' \<longrightarrow> config_ok (config t')"
    using app_reducer_apply_config [of t po t'] by (auto simp add: applied_config_ok)
  have 3: "run reducer initialState as = Inr s2 \<longrightarrow> timer_inv s2"
    using run_inv [OF initialState_inv] by blast
  have 4: "run app_reducer app_initialState as = Inr t2 \<longrightarrow> timer_inv t2"
    using app_run_inv [OF app_initialState_inv] by blast
  from 1 2 3 4 show ?thesis
    by (simp add: timer_inv_def config_ok_def)
qed

theorem config_at_least_one_witness:
  "reducer initialState
      (APPLY_CONFIG (Some \<lparr>workMin = JStr ''2.5'', shortMin = JStr ''abc'',
                           longMin = JStr ''Infinity'', longEvery = JStr ''0''\<rparr>))
     = Inr \<lparr>mode = Work, status = Idle,
            config = \<lparr>workMin = Fin (5 / 2), shortMin = Fin 1, longMin = PosInf,
                      longEvery = Fin 4\<rparr>,
            secondsLeft = Fin 150, workSessionsCompleted = Fin 0,
            announce = ''Settings applied''\<rparr>
   \<and> config_ok \<lparr>workMin = Fin (5 / 2), shortMin = Fin 1, longMin = PosInf,
                 longEvery = Fin 4\<rparr>
   \<and> run app_reducer app_initialState
       [APPLY_CONFIG (Some \<lparr>workMin = JStr ''2.5'', shortMin = JStr ''abc'',
                            longMin = JStr ''Infinity'', longEvery = JStr ''0''\<rparr>), START]
     = Inr \<lparr>mode = Work, status = Running,
            config = \<lparr>workMin = Fin (5 / 2), shortMin = Fin 1, longMin = PosInf,
                      longEvery = Fin 4\<rparr>,
            secondsLeft = Fin 150, workSessionsCompleted = Fin 0,
            announce = '''', soundEnabled = True\<rparr>"
  using config_at_least_one
    [of initialState
        "Some \<lparr>workMin = JStr ''2.5'', shortMin = JStr ''abc'',
               longMin = JStr ''Infinity'', longEvery = JStr ''0''\<rparr>"
        "\<lparr>mode = Work, status = Idle,
          config = \<lparr>workMin = Fin (5 / 2), shortMin = Fin 1, longMin = PosInf,
                    longEvery = Fin 4\<rparr>,
          secondsLeft = Fin 150, workSessionsCompleted = Fin 0,
          announce = ''Settings applied''\<rparr>"
        app_initialState
        "\<lparr>mode = Work, status = Idle,
          config = \<lparr>workMin = Fin (5 / 2), shortMin = Fin 1, longMin = PosInf,
                    longEvery = Fin 4\<rparr>,
          secondsLeft = Fin 150, workSessionsCompleted = Fin 0,
          announce = ''Settings applied'', soundEnabled = True\<rparr>"
        "[APPLY_CONFIG (Some \<lparr>workMin = JStr ''2.5'', shortMin = JStr ''abc'',
                             longMin = JStr ''Infinity'', longEvery = JStr ''0''\<rparr>), START]"
        "\<lparr>mode = Work, status = Running,
          config = \<lparr>workMin = Fin (5 / 2), shortMin = Fin 1, longMin = PosInf,
                    longEvery = Fin 4\<rparr>,
          secondsLeft = Fin 150, workSessionsCompleted = Fin 0,
          announce = ''''\<rparr>"
        "\<lparr>mode = Work, status = Running,
          config = \<lparr>workMin = Fin (5 / 2), shortMin = Fin 1, longMin = PosInf,
                    longEvery = Fin 4\<rparr>,
          secondsLeft = Fin 150, workSessionsCompleted = Fin 0,
          announce = '''', soundEnabled = True\<rparr>"]
  by (simp add: initialState_def app_initialState_def conversions clampMin_def and_then_def
      js_or_def Let_def secondsForMode_def config_ok_def)




text \<open>
  C8. Applying the same payload a second time, right after an application that
  returned, returns again and gives the config the first application gave (and the same
  state altogether). Both reducers.
\<close>

theorem apply_config_idempotent:
  fixes s s1 :: "'a timer_state_scheme" and t t1 :: app_state
  shows
    "(reducer s (APPLY_CONFIG po) = Inr s1 \<longrightarrow>
        (\<exists>s2. reducer s1 (APPLY_CONFIG po) = Inr s2 \<and> config s2 = config s1 \<and> s2 = s1))
     \<and> (app_reducer t (APPLY_CONFIG po) = Inr t1 \<longrightarrow>
        (\<exists>t2. app_reducer t1 (APPLY_CONFIG po) = Inr t2 \<and> config t2 = config t1 \<and> t2 = t1))"
proof -
  have 1: "reducer s (APPLY_CONFIG po) = Inr s1 \<longrightarrow> reducer s1 (APPLY_CONFIG po) = Inr s1"
    using reducer_apply_config [of s po s1]
    by (auto simp add: and_then_def Let_def)
  have 2: "app_reducer t (APPLY_CONFIG po) = Inr t1 \<longrightarrow>
      app_reducer t1 (APPLY_CONFIG po) = Inr t1"
    using app_reducer_apply_config [of t po t1]
    by (auto simp add: and_then_def Let_def)
  from 1 2 show ?thesis
    by simp
qed

theorem apply_config_idempotent_witness:
  "reducer initialState
      (APPLY_CONFIG (Some \<lparr>workMin = JStr ''abc'', shortMin = JStr ''-5'',
                           longMin = JStr ''10'', longEvery = JStr ''0''\<rparr>))
     = Inr \<lparr>mode = Work, status = Idle,
            config = \<lparr>workMin = Fin 1, shortMin = Fin 1, longMin = Fin 10, longEvery = Fin 4\<rparr>,
            secondsLeft = Fin 60, workSessionsCompleted = Fin 0,
            announce = ''Settings applied''\<rparr>
   \<and> reducer \<lparr>mode = Work, status = Idle,
            config = \<lparr>workMin = Fin 1, shortMin = Fin 1, longMin = Fin 10, longEvery = Fin 4\<rparr>,
            secondsLeft = Fin 60, workSessionsCompleted = Fin 0,
            announce = ''Settings applied''\<rparr>
      (APPLY_CONFIG (Some \<lparr>workMin = JStr ''abc'', shortMin = JStr ''-5'',
                           longMin = JStr ''10'', longEvery = JStr ''0''\<rparr>))
     = Inr \<lparr>mode = Work, status = Idle,
            config = \<lparr>workMin = Fin 1, shortMin = Fin 1, longMin = Fin 10, longEvery = Fin 4\<rparr>,
            secondsLeft = Fin 60, workSessionsCompleted = Fin 0,
            announce = ''Settings applied''\<rparr>
   \<and> app_reducer (app_initialState\<lparr>mode := LongBreak\<rparr>)
      (APPLY_CONFIG (Some \<lparr>workMin = JStr ''abc'', shortMin = JStr ''-5'',
                           longMin = JStr ''10'', longEvery = JStr ''0''\<rparr>))
     = Inr \<lparr>mode = LongBreak, status = Idle,
            config = \<lparr>workMin = Fin 1, shortMin = Fin 1, longMin = Fin 10, longEvery = Fin 4\<rparr>,
            secondsLeft = Fin 600, workSessionsCompleted = Fin 0,
            announce = ''Settings applied'', soundEnabled = True\<rparr>
   \<and> app_reducer \<lparr>mode = LongBreak, status = Idle,
            config = \<lparr>workMin = Fin 1, shortMin = Fin 1, longMin = Fin 10, longEvery = Fin 4\<rparr>,
            secondsLeft = Fin 600, workSessionsCompleted = Fin 0,
            announce = ''Settings applied'', soundEnabled = True\<rparr>
      (APPLY_CONFIG (Some \<lparr>workMin = JStr ''abc'', shortMin = JStr ''-5'',
                           longMin = JStr ''10'', longEvery = JStr ''0''\<rparr>))
     = Inr \<lparr>mode = LongBreak, status = Idle,
            config = \<lparr>workMin = Fin 1, shortMin = Fin 1, longMin = Fin 10, longEvery = Fin 4\<rparr>,
            secondsLeft = Fin 600, workSessionsCompleted = Fin 0,
            announce = ''Settings applied'', soundEnabled = True\<rparr>"
  using apply_config_idempotent
    [of initialState
        "Some \<lparr>workMin = JStr ''abc'', shortMin = JStr ''-5'',
               longMin = JStr ''10'', longEvery = JStr ''0''\<rparr>"
        "\<lparr>mode = Work, status = Idle,
          config = \<lparr>workMin = Fin 1, shortMin = Fin 1, longMin = Fin 10, longEvery = Fin 4\<rparr>,
          secondsLeft = Fin 60, workSessionsCompleted = Fin 0,
          announce = ''Settings applied''\<rparr>"
        "app_initialState\<lparr>mode := LongBreak\<rparr>"
        "\<lparr>mode = LongBreak, status = Idle,
          config = \<lparr>workMin = Fin 1, shortMin = Fin 1, longMin = Fin 10, longEvery = Fin 4\<rparr>,
          secondsLeft = Fin 600, workSessionsCompleted = Fin 0,
          announce = ''Settings applied'', soundEnabled = True\<rparr>"]
  by (simp add: initialState_def app_initialState_def conversions clampMin_def and_then_def
      js_or_def Let_def secondsForMode_def)

section \<open>Actions whose precondition fails\<close>

text \<open>
  C5. An action whose precondition fails returns the state it was given: a tick when the
  status is not running, a start when it is running, a pause when it is not running and
  a resume when it is not paused. Both reducers.
\<close>

theorem failed_precondition_noop:
  fixes s :: "'a timer_state_scheme" and t :: app_state
  shows
    "(status s \<noteq> Running \<longrightarrow> reducer s TICK = Inr s)
     \<and> (status s = Running \<longrightarrow> reducer s START = Inr s)
     \<and> (status s \<noteq> Running \<longrightarrow> reducer s PAUSE = Inr s)
     \<and> (status s \<noteq> Paused \<longrightarrow> reducer s RESUME = Inr s)
     \<and> (status t \<noteq> Running \<longrightarrow> app_reducer t TICK = Inr t)
     \<and> (status t = Running \<longrightarrow> app_reducer t START = Inr t)
     \<and> (status t \<noteq> Running \<longrightarrow> app_reducer t PAUSE = Inr t)
     \<and> (status t \<noteq> Paused \<longrightarrow> app_reducer t RESUME = Inr t)"
  by simp

theorem failed_precondition_noop_witness:
  "status initialState \<noteq> Running \<and> status initialState \<noteq> Paused
   \<and> status (app_initialState\<lparr>status := Running\<rparr>) = Running
   \<and> status (app_initialState\<lparr>status := Running\<rparr>) \<noteq> Paused
   \<and> reducer initialState TICK = Inr initialState
   \<and> reducer initialState PAUSE = Inr initialState
   \<and> reducer initialState RESUME = Inr initialState
   \<and> app_reducer (app_initialState\<lparr>status := Running\<rparr>) START
       = Inr (app_initialState\<lparr>status := Running\<rparr>)
   \<and> app_reducer (app_initialState\<lparr>status := Running\<rparr>) RESUME
       = Inr (app_initialState\<lparr>status := Running\<rparr>)
   \<and> status (initialState\<lparr>status := Running\<rparr>) = Running
   \<and> reducer (initialState\<lparr>status := Running\<rparr>) START
       = Inr (initialState\<lparr>status := Running\<rparr>)
   \<and> status (app_initialState\<lparr>status := Paused\<rparr>) \<noteq> Running
   \<and> app_reducer (app_initialState\<lparr>status := Paused\<rparr>) TICK
       = Inr (app_initialState\<lparr>status := Paused\<rparr>)
   \<and> app_reducer (app_initialState\<lparr>status := Paused\<rparr>) PAUSE
       = Inr (app_initialState\<lparr>status := Paused\<rparr>)"
  using
    failed_precondition_noop [of initialState "app_initialState\<lparr>status := Running\<rparr>"]
    failed_precondition_noop
      [of "initialState\<lparr>status := Running\<rparr>" "app_initialState\<lparr>status := Paused\<rparr>"]
  by (simp add: initialState_def app_initialState_def)

section \<open>Resetting the session\<close>

text \<open>
  C6. Whatever the status was, \<^verbatim>\<open>RESET_SESSION\<close> sets the status to idle, the seconds
  left to the duration of the current mode under the current config and the announcement
  to "Session reset"; mode, config and the count of completed work sessions stay as they
  were. The duration of a mode is its minutes in the config (\<^verbatim>\<open>workMin\<close>,
  \<^verbatim>\<open>shortMin\<close> or \<^verbatim>\<open>longMin\<close>) times 60, which is exact for whole minutes up to
  \<open>2\<^sup>5\<^sup>3\<close> seconds. Both reducers do so.
\<close>

theorem reset_session_effect:
  fixes s :: "'a timer_state_scheme" and t :: app_state
  shows
    "reducer s RESET_SESSION =
       Inr (s\<lparr>status := Idle,
              secondsLeft :=
                js_mul (case mode s of Work \<Rightarrow> workMin (config s)
                        | ShortBreak \<Rightarrow> shortMin (config s)
                        | LongBreak \<Rightarrow> longMin (config s)) (Fin 60),
              announce := ''Session reset''\<rparr>)
     \<and> app_reducer t RESET_SESSION =
       Inr (t\<lparr>status := Idle,
              secondsLeft :=
                js_mul (case mode t of Work \<Rightarrow> workMin (config t)
                        | ShortBreak \<Rightarrow> shortMin (config t)
                        | LongBreak \<Rightarrow> longMin (config t)) (Fin 60),
              announce := ''Session reset''\<rparr>)
     \<and> (\<exists>s'. reducer s RESET_SESSION = Inr s'
          \<and> status s' = Idle
          \<and> secondsLeft s' = secondsForMode (mode s) (config s)
          \<and> announce s' = ''Session reset''
          \<and> mode s' = mode s \<and> config s' = config s
          \<and> workSessionsCompleted s' = workSessionsCompleted s)
     \<and> (\<exists>t'. app_reducer t RESET_SESSION = Inr t'
          \<and> status t' = Idle
          \<and> secondsLeft t' = secondsForMode (mode t) (config t)
          \<and> announce t' = ''Session reset''
          \<and> mode t' = mode t \<and> config t' = config t
          \<and> workSessionsCompleted t' = workSessionsCompleted t
          \<and> soundEnabled t' = soundEnabled t)
     \<and> secondsForMode Work c = js_mul (workMin c) (Fin 60)
     \<and> secondsForMode ShortBreak c = js_mul (shortMin c) (Fin 60)
     \<and> secondsForMode LongBreak c = js_mul (longMin c) (Fin 60)
     \<and> (\<forall>m. 0 \<le> m \<and> m * 60 \<le> 2 ^ 53 \<longrightarrow>
           js_mul (Fin (of_int m)) (Fin 60) = Fin (of_int (m * 60)))"
proof -
  have minutes: "\<forall>m. 0 \<le> m \<and> m * 60 \<le> 2 ^ 53 \<longrightarrow>
      js_mul (Fin (of_int m)) (Fin 60) = Fin (of_int (m * 60))"
    by (simp add: js_mul_int del: js_mul.simps)
  have rest:
    "reducer s RESET_SESSION =
       Inr (s\<lparr>status := Idle,
              secondsLeft :=
                js_mul (case mode s of Work \<Rightarrow> workMin (config s)
                        | ShortBreak \<Rightarrow> shortMin (config s)
                        | LongBreak \<Rightarrow> longMin (config s)) (Fin 60),
              announce := ''Session reset''\<rparr>)"
    "app_reducer t RESET_SESSION =
       Inr (t\<lparr>status := Idle,
              secondsLeft :=
                js_mul (case mode t of Work \<Rightarrow> workMin (config t)
                        | ShortBreak \<Rightarrow> shortMin (config t)
                        | LongBreak \<Rightarrow> longMin (config t)) (Fin 60),
              announce := ''Session reset''\<rparr>)"
    "(\<exists>s'. reducer s RESET_SESSION = Inr s'
          \<and> status s' = Idle
          \<and> secondsLeft s' = secondsForMode (mode s) (config s)
          \<and> announce s' = ''Session reset''
          \<and> mode s' = mode s \<and> config s' = config s
          \<and> workSessionsCompleted s' = workSessionsCompleted s)"
    "(\<exists>t'. app_reducer t RESET_SESSION = Inr t'
          \<and> status t' = Idle
          \<and> secondsLeft t' = secondsForMode (mode t) (config t)
          \<and> announce t' = ''Session reset''
          \<and> mode t' = mode t \<and> config t' = config t
          \<and> workSessionsCompleted t' = workSessionsCompleted t
          \<and> soundEnabled t' = soundEnabled t)"
    "secondsForMode Work c = js_mul (workMin c) (Fin 60)"
    "secondsForMode ShortBreak c = js_mul (shortMin c) (Fin 60)"
    "secondsForMode LongBreak c = js_mul (longMin c) (Fin 60)"
    by (simp_all add: secondsForMode_minutes del: js_mul.simps)
  from rest minutes show ?thesis
    by (intro conjI)
qed

text \<open>
  The witness resets in each of the three modes, from each status: 1500, 300 and 900
  seconds with the initial config.
\<close>

theorem reset_session_effect_witness:
  "reducer (initialState\<lparr>secondsLeft := Fin 7, status := Running\<rparr>) RESET_SESSION
     = Inr \<lparr>mode = Work, status = Idle,
            config = \<lparr>workMin = Fin 25, shortMin = Fin 5, longMin = Fin 15,
                      longEvery = Fin 4\<rparr>,
            secondsLeft = Fin 1500, workSessionsCompleted = Fin 0,
            announce = ''Session reset''\<rparr>
   \<and> app_reducer (app_initialState\<lparr>mode := ShortBreak, secondsLeft := Fin 7,
                                   status := Paused, workSessionsCompleted := Fin 1\<rparr>)
       RESET_SESSION
     = Inr \<lparr>mode = ShortBreak, status = Idle,
            config = \<lparr>workMin = Fin 25, shortMin = Fin 5, longMin = Fin 15,
                      longEvery = Fin 4\<rparr>,
            secondsLeft = Fin 300, workSessionsCompleted = Fin 1,
            announce = ''Session reset'', soundEnabled = True\<rparr>
   \<and> reducer (initialState\<lparr>mode := LongBreak, secondsLeft := Fin 7\<rparr>) RESET_SESSION
     = Inr \<lparr>mode = LongBreak, status = Idle,
            config = \<lparr>workMin = Fin 25, shortMin = Fin 5, longMin = Fin 15,
                      longEvery = Fin 4\<rparr>,
            secondsLeft = Fin 900, workSessionsCompleted = Fin 0,
            announce = ''Session reset''\<rparr>
   \<and> (0::int) \<le> 15 \<and> (15::int) * 60 \<le> 2 ^ 53
   \<and> js_mul (Fin 15) (Fin 60) = Fin 900"
  using
    reset_session_effect
      [of "initialState\<lparr>secondsLeft := Fin 7, status := Running\<rparr>"
          "app_initialState\<lparr>mode := ShortBreak, secondsLeft := Fin 7,
                            status := Paused, workSessionsCompleted := Fin 1\<rparr>"
          "config initialState"]
    reset_session_effect
      [of "initialState\<lparr>mode := LongBreak, secondsLeft := Fin 7\<rparr>"
          "app_initialState\<lparr>mode := ShortBreak, secondsLeft := Fin 7,
                            status := Paused, workSessionsCompleted := Fin 1\<rparr>"
          "config initialState"]
  by (simp add: initialState_def app_initialState_def)

section \<open>Selecting a mode\<close>

text \<open>
  C7. In the application's reducer, \<^verbatim>\<open>SET_MODE\<close> with any of the three modes sets the
  mode to it, the status to idle, the seconds left to the duration of that mode under
  the current config, that is its minutes (\<^verbatim>\<open>workMin\<close>, \<^verbatim>\<open>shortMin\<close> or
  \<^verbatim>\<open>longMin\<close>) times 60, exact for whole minutes up to \<open>2\<^sup>5\<^sup>3\<close> seconds, and the
  announcement to "Session: " followed by the mode's label; the labels are "Work",
  "Short Break" and "Long Break".
\<close>

theorem set_mode_effect:
  "app_reducer t (SET_MODE m) =
     Inr (t\<lparr>mode := m, status := Idle,
            secondsLeft :=
              js_mul (case m of Work \<Rightarrow> workMin (config t)
                      | ShortBreak \<Rightarrow> shortMin (config t)
                      | LongBreak \<Rightarrow> longMin (config t)) (Fin 60),
            announce := ''Session: '' @ modeLabel m\<rparr>)
   \<and> app_reducer t (SET_MODE Work) =
     Inr (t\<lparr>mode := Work, status := Idle,
            secondsLeft := js_mul (workMin (config t)) (Fin 60),
            announce := ''Session: Work''\<rparr>)
   \<and> app_reducer t (SET_MODE ShortBreak) =
     Inr (t\<lparr>mode := ShortBreak, status := Idle,
            secondsLeft := js_mul (shortMin (config t)) (Fin 60),
            announce := ''Session: Short Break''\<rparr>)
   \<and> app_reducer t (SET_MODE LongBreak) =
     Inr (t\<lparr>mode := LongBreak, status := Idle,
            secondsLeft := js_mul (longMin (config t)) (Fin 60),
            announce := ''Session: Long Break''\<rparr>)
   \<and> (\<exists>t'. app_reducer t (SET_MODE m) = Inr t'
        \<and> mode t' = m \<and> status t' = Idle
        \<and> secondsLeft t' = secondsForMode m (config t)
        \<and> announce t' = ''Session: '' @ modeLabel m
        \<and> config t' = config t
        \<and> workSessionsCompleted t' = workSessionsCompleted t
        \<and> soundEnabled t' = soundEnabled t)
   \<and> modeLabel Work = ''Work''
   \<and> modeLabel ShortBreak = ''Short Break''
   \<and> modeLabel LongBreak = ''Long Break''
   \<and> (\<forall>k. 0 \<le> k \<and> k * 60 \<le> 2 ^ 53 \<longrightarrow>
         js_mul (Fin (of_int k)) (Fin 60) = Fin (of_int (k * 60)))"
proof -
  have minutes: "\<forall>k. 0 \<le> k \<and> k * 60 \<le> 2 ^ 53 \<longrightarrow>
      js_mul (Fin (of_int k)) (Fin 60) = Fin (of_int (k * 60))"
    by (simp add: js_mul_int del: js_mul.simps)
  have rest:
    "app_reducer t (SET_MODE m) =
     Inr (t\<lparr>mode := m, status := Idle,
            secondsLeft :=
              js_mul (case m of Work \<Rightarrow> workMin (config t)
                      | ShortBreak \<Rightarrow> shortMin (config t)
                      | LongBreak \<Rightarrow> longMin (config t)) (Fin 60),
            announce := ''Session: '' @ modeLabel m\<rparr>)"
    "app_reducer t (SET_MODE Work) =
     Inr (t\<lparr>mode := Work, status := Idle,
            secondsLeft := js_mul (workMin (config t)) (Fin 60),
            announce := ''Session: Work''\<rparr>)"
    "app_reducer t (SET_MODE ShortBreak) =
     Inr (t\<lparr>mode := ShortBreak, status := Idle,
            secondsLeft := js_mul (shortMin (config t)) (Fin 60),
            announce := ''Session: Short Break''\<rparr>)"
    "app_reducer t (SET_MODE LongBreak) =
     Inr (t\<lparr>mode := LongBreak, status := Idle,
            secondsLeft := js_mul (longMin (config t)) (Fin 60),
            announce := ''Session: Long Break''\<rparr>)"
    "(\<exists>t'. app_reducer t (SET_MODE m) = Inr t'
        \<and> mode t' = m \<and> status t' = Idle
        \<and> secondsLeft t' = secondsForMode m (config t)
        \<and> announce t' = ''Session: '' @ modeLabel m
        \<and> config t' = config t
        \<and> workSessionsCompleted t' = workSessionsCompleted t
        \<and> soundEnabled t' = soundEnabled t)"
    "modeLabel Work = ''Work''"
    "modeLabel ShortBreak = ''Short Break''"
    "modeLabel LongBreak = ''Long Break''"
    by (simp_all add: secondsForMode_minutes del: js_mul.simps)
  from rest minutes show ?thesis
    by (intro conjI)
qed

text \<open>
  The witness selects each of the three modes with the initial config: 1500, 300 and
  900 seconds.
\<close>

theorem set_mode_effect_witness:
  "app_reducer (app_initialState\<lparr>status := Running, secondsLeft := Fin 7\<rparr>) (SET_MODE Work)
     = Inr \<lparr>mode = Work, status = Idle,
            config = \<lparr>workMin = Fin 25, shortMin = Fin 5, longMin = Fin 15,
                      longEvery = Fin 4\<rparr>,
            secondsLeft = Fin 1500, workSessionsCompleted = Fin 0,
            announce = ''Session: Work'', soundEnabled = True\<rparr>
   \<and> app_reducer app_initialState (SET_MODE ShortBreak)
     = Inr \<lparr>mode = ShortBreak, status = Idle,
            config = \<lparr>workMin = Fin 25, shortMin = Fin 5, longMin = Fin 15,
                      longEvery = Fin 4\<rparr>,
            secondsLeft = Fin 300, workSessionsCompleted = Fin 0,
            announce = ''Session: Short Break'', soundEnabled = True\<rparr>
   \<and> app_reducer app_initialState (SET_MODE LongBreak)
     = Inr \<lparr>mode = LongBreak, status = Idle,
            config = \<lparr>workMin = Fin 25, shortMin = Fin 5, longMin = Fin 15,
                      longEvery = Fin 4\<rparr>,
            secondsLeft = Fin 900, workSessionsCompleted = Fin 0,
            announce = ''Session: Long Break'', soundEnabled = True\<rparr>
   \<and> (0::int) \<le> 5 \<and> (5::int) * 60 \<le> 2 ^ 53
   \<and> js_mul (Fin 5) (Fin 60) = Fin 300"
  using
    set_mode_effect [of "app_initialState\<lparr>status := Running, secondsLeft := Fin 7\<rparr>" Work]
    set_mode_effect [of app_initialState ShortBreak]
    set_mode_effect [of app_initialState LongBreak]
  by (simp add: app_initialState_def)

text \<open>
  The exported reducer has no case for \<^verbatim>\<open>SET_MODE\<close> or \<^verbatim>\<open>TOGGLE_SOUND\<close>: both
  fall to its default and return the state. On the other actions the two reducers agree.
\<close>

lemma reducer_ignores_set_mode:
  "reducer s (SET_MODE m) = Inr s \<and> reducer s TOGGLE_SOUND = Inr s"
  by simp

lemma reducers_agree:
  "a \<noteq> TOGGLE_SOUND \<Longrightarrow> a \<noteq> SET_MODE Work \<Longrightarrow> a \<noteq> SET_MODE ShortBreak \<Longrightarrow>
   a \<noteq> SET_MODE LongBreak \<Longrightarrow> app_reducer t a = reducer t a"
proof (cases a)
  case (SET_MODE m)
  assume "a \<noteq> SET_MODE Work" "a \<noteq> SET_MODE ShortBreak" "a \<noteq> SET_MODE LongBreak"
  with SET_MODE show ?thesis
    by (cases m) simp_all
next
  case (APPLY_CONFIG po)
  then show ?thesis
    by (cases po) (simp_all add: and_then_def Let_def split: sum.splits)
qed (simp_all add: Let_def nextMode_def)

section \<open>The seconds left\<close>

text \<open>
  C9. In every state that a sequence of actions reaches from the initial state, the
  seconds left compare \<^verbatim>\<open>> 0\<close>. Both reducers.
\<close>

theorem seconds_left_positive:
  "(run reducer initialState as = Inr s \<longrightarrow> js_gt (secondsLeft s) (Fin 0))
   \<and> (run app_reducer app_initialState as = Inr t \<longrightarrow> js_gt (secondsLeft t) (Fin 0))"
proof -
  have 1: "run reducer initialState as = Inr s \<longrightarrow> timer_inv s"
    using run_inv [OF initialState_inv] by blast
  have 2: "run app_reducer app_initialState as = Inr t \<longrightarrow> timer_inv t"
    using app_run_inv [OF app_initialState_inv] by blast
  from 1 2 show ?thesis
    by (simp add: timer_inv_def)
qed

text \<open>
  The witness runs a start and a tick in both reducers: 1499 seconds are left.
\<close>

theorem seconds_left_positive_witness:
  "run reducer initialState [START, TICK]
     = Inr (initialState\<lparr>status := Running, secondsLeft := Fin 1499\<rparr>)
   \<and> js_gt (secondsLeft (initialState\<lparr>status := Running, secondsLeft := Fin 1499\<rparr>)) (Fin 0)
   \<and> run app_reducer app_initialState [START, TICK]
     = Inr (app_initialState\<lparr>status := Running, secondsLeft := Fin 1499\<rparr>)
   \<and> js_gt (secondsLeft (app_initialState\<lparr>status := Running, secondsLeft := Fin 1499\<rparr>))
        (Fin 0)"
  using seconds_left_positive
    [of "[START, TICK]" "initialState\<lparr>status := Running, secondsLeft := Fin 1499\<rparr>"
        "app_initialState\<lparr>status := Running, secondsLeft := Fin 1499\<rparr>"]
  by (simp add: initialState_def app_initialState_def)

text \<open>
  C10, as the spec states it, has every tick in the middle of a session decrement the
  seconds left by exactly 1. The seconds left are a binary64 Number. Applying a work
  length of 150119987579017 minutes and starting gives 9007199254741020 seconds, above
  \<open>2\<^sup>5\<^sup>3\<close>, where \<^verbatim>\<open>secondsLeft - 1\<close> rounds back to the same value: the tick returns
  the state unchanged.
\<close>

theorem tick_does_not_decrement:
  "run reducer initialState
      [APPLY_CONFIG (Some \<lparr>workMin = JStr ''150119987579017'', shortMin = JStr ''5'',
                            longMin = JStr ''15'', longEvery = JStr ''4''\<rparr>), START]
     = Inr \<lparr>mode = Work, status = Running,
            config = \<lparr>workMin = Fin 150119987579017, shortMin = Fin 5, longMin = Fin 15,
                      longEvery = Fin 4\<rparr>,
            secondsLeft = Fin 9007199254741020, workSessionsCompleted = Fin 0,
            announce = ''''\<rparr>
   \<and> js_ge (Fin 9007199254741020) (Fin 2)
   \<and> reducer \<lparr>mode = Work, status = Running,
            config = \<lparr>workMin = Fin 150119987579017, shortMin = Fin 5, longMin = Fin 15,
                      longEvery = Fin 4\<rparr>,
            secondsLeft = Fin 9007199254741020, workSessionsCompleted = Fin 0,
            announce = ''''\<rparr> TICK
     = Inr \<lparr>mode = Work, status = Running,
            config = \<lparr>workMin = Fin 150119987579017, shortMin = Fin 5, longMin = Fin 15,
                      longEvery = Fin 4\<rparr>,
            secondsLeft = Fin 9007199254741020, workSessionsCompleted = Fin 0,
            announce = ''''\<rparr>"
  by (simp add: initialState_def conversions clampMin_def and_then_def js_or_def Let_def
      secondsForMode_def round64_examples)

text \<open>
  C10, amended. A tick in a running state whose seconds left compare \<^verbatim>\<open>>= 2\<close> returns
  the state with the seconds left replaced by the binary64 value of
  \<^verbatim>\<open>secondsLeft - 1\<close> and nothing else changed: mode, status, config, the count of
  completed work sessions and the announcement are those of the state before. The new
  value is exactly one less when the seconds left are an integer from 2 to \<open>2\<^sup>5\<^sup>3\<close>;
  Infinity stays Infinity. Both reducers.
\<close>

theorem tick_mid_session_frame:
  fixes s :: "'a timer_state_scheme" and t :: app_state
  assumes "status s = Running" and "js_ge (secondsLeft s) (Fin 2)"
    and "status t = Running" and "js_ge (secondsLeft t) (Fin 2)"
  shows
    "reducer s TICK = Inr (s\<lparr>secondsLeft := js_sub (secondsLeft s) (Fin 1)\<rparr>)
     \<and> (\<forall>n. 2 \<le> n \<and> n \<le> 2 ^ 53 \<and> secondsLeft s = Fin (of_int n) \<longrightarrow>
           reducer s TICK = Inr (s\<lparr>secondsLeft := Fin (of_int (n - 1))\<rparr>))
     \<and> (secondsLeft s = PosInf \<longrightarrow> reducer s TICK = Inr s)
     \<and> (\<exists>s'. reducer s TICK = Inr s'
          \<and> mode s' = mode s \<and> status s' = status s \<and> config s' = config s
          \<and> workSessionsCompleted s' = workSessionsCompleted s
          \<and> announce s' = announce s)
     \<and> app_reducer t TICK = Inr (t\<lparr>secondsLeft := js_sub (secondsLeft t) (Fin 1)\<rparr>)
     \<and> (\<forall>n. 2 \<le> n \<and> n \<le> 2 ^ 53 \<and> secondsLeft t = Fin (of_int n) \<longrightarrow>
           app_reducer t TICK = Inr (t\<lparr>secondsLeft := Fin (of_int (n - 1))\<rparr>))
     \<and> (secondsLeft t = PosInf \<longrightarrow> app_reducer t TICK = Inr t)
     \<and> (\<exists>t'. app_reducer t TICK = Inr t'
          \<and> mode t' = mode t \<and> status t' = status t \<and> config t' = config t
          \<and> workSessionsCompleted t' = workSessionsCompleted t
          \<and> announce t' = announce t \<and> soundEnabled t' = soundEnabled t)"
proof -
  have "js_gt (js_sub (secondsLeft s) (Fin 1)) (Fin 0)"
    using assms(2) by (rule ge_2_pred_positive)
  with assms(1)
  have rs: "reducer s TICK = Inr (s\<lparr>secondsLeft := js_sub (secondsLeft s) (Fin 1)\<rparr>)"
    by (simp add: Let_def del: js_sub.simps)
  have "js_gt (js_sub (secondsLeft t) (Fin 1)) (Fin 0)"
    using assms(4) by (rule ge_2_pred_positive)
  with assms(3)
  have rt: "app_reducer t TICK = Inr (t\<lparr>secondsLeft := js_sub (secondsLeft t) (Fin 1)\<rparr>)"
    by (simp add: Let_def del: js_sub.simps)
  have dec: "2 \<le> n \<and> n \<le> 2 ^ 53 \<longrightarrow> js_sub (Fin (of_int n)) (Fin 1) = Fin (of_int (n - 1))"
    for n :: int
    by (simp add: js_sub_int del: js_sub.simps)
  have inf: "js_sub PosInf (Fin 1) = PosInf"
    by simp
  show ?thesis
    unfolding rs rt using dec inf
    by (auto simp del: js_sub.simps)
qed

text \<open>
  The witness ticks once more after the first work session of the scenario has
  completed: 299 seconds are left and the announcement of the completion is still there.
\<close>

theorem tick_mid_session_frame_witness:
  "status \<lparr>mode = ShortBreak, status = Running,
          config = \<lparr>workMin = Fin 25, shortMin = Fin 5, longMin = Fin 15, longEvery = Fin 4\<rparr>,
          secondsLeft = Fin 300, workSessionsCompleted = Fin 1,
          announce = ''Session complete. Next: Short Break''\<rparr> = Running
   \<and> js_ge (Fin 300) (Fin 2) \<and> (2::int) \<le> 300 \<and> (300::int) \<le> 2 ^ 53
   \<and> reducer \<lparr>mode = ShortBreak, status = Running,
          config = \<lparr>workMin = Fin 25, shortMin = Fin 5, longMin = Fin 15, longEvery = Fin 4\<rparr>,
          secondsLeft = Fin 300, workSessionsCompleted = Fin 1,
          announce = ''Session complete. Next: Short Break''\<rparr> TICK
     = Inr \<lparr>mode = ShortBreak, status = Running,
          config = \<lparr>workMin = Fin 25, shortMin = Fin 5, longMin = Fin 15, longEvery = Fin 4\<rparr>,
          secondsLeft = Fin 299, workSessionsCompleted = Fin 1,
          announce = ''Session complete. Next: Short Break''\<rparr>
   \<and> app_reducer (app_initialState\<lparr>status := Running\<rparr>) TICK
       = Inr (app_initialState\<lparr>status := Running, secondsLeft := Fin 1499\<rparr>)
   \<and> app_reducer (app_initialState\<lparr>status := Running, secondsLeft := PosInf\<rparr>) TICK
       = Inr (app_initialState\<lparr>status := Running, secondsLeft := PosInf\<rparr>)"
  using
    tick_mid_session_frame
      [of "\<lparr>mode = ShortBreak, status = Running,
          config = \<lparr>workMin = Fin 25, shortMin = Fin 5, longMin = Fin 15, longEvery = Fin 4\<rparr>,
          secondsLeft = Fin 300, workSessionsCompleted = Fin 1,
          announce = ''Session complete. Next: Short Break''\<rparr>"
          "app_initialState\<lparr>status := Running\<rparr>"]
    tick_mid_session_frame
      [of "\<lparr>mode = ShortBreak, status = Running,
          config = \<lparr>workMin = Fin 25, shortMin = Fin 5, longMin = Fin 15, longEvery = Fin 4\<rparr>,
          secondsLeft = Fin 300, workSessionsCompleted = Fin 1,
          announce = ''Session complete. Next: Short Break''\<rparr>"
          "app_initialState\<lparr>status := Running, secondsLeft := PosInf\<rparr>"]
  by (simp add: app_initialState_def)

end
